theory Spec2Isabelle
  imports Complex_Main "HOL-Library.AList"
begin

section \<open>Paths (pathlib)\<close>

text \<open>
  A path is the list of its components below the filesystem root; the empty list is the
  root itself. \<open>Path.parent\<close>, \<open>Path.name\<close>, \<open>Path.suffix\<close> and \<open>Path.with_suffix\<close>
  follow pathlib's pure-path code: the suffix is the part of the last component from its
  last dot on, unless that dot is the first or the last character of the name.
\<close>

type_synonym path = "string list"

text \<open>
  The exceptions the model tells apart, each with what Python stores in it: the operating
  system's errors carry the file name they are about (\<open>e.filename\<close>), \<open>SameFileError\<close>
  the two names, \<open>KeyError\<close> the missing key, \<open>TimeoutExpired\<close> the command line and
  the time limit. \<open>Exception m\<close> is any other exception, built from the one argument
  \<open>m\<close>: the image library's own errors, and the exception \<open>optimize_video\<close> raises for a
  non-zero exit code. The string of a \<open>ValueError\<close> only says which check raised it. All
  of them are caught by \<open>except Exception\<close>.
\<close>

datatype exn =
    FileNotFoundError path
  | FileExistsError path
  | NotADirectoryError path
  | IsADirectoryError path
  | PermissionError path
  | SameFileError path path
  | ZeroDivisionError
  | KeyError string
  | ValueError string
  | TimeoutExpired "string list" nat
  | Exception string

definition parent :: "path \<Rightarrow> path" where
  "parent p = butlast p"

definition name_of :: "path \<Rightarrow> string" where
  "name_of p = (if p = [] then [] else last p)"

definition rfind_dot :: "string \<Rightarrow> nat option" where
  "rfind_dot nm =
     (let j = length (takeWhile (\<lambda>c. c \<noteq> CHR ''.'') (rev nm))
      in if j = length nm then None else Some (length nm - 1 - j))"

definition suffix_of_name :: "string \<Rightarrow> string" where
  "suffix_of_name nm =
     (case rfind_dot nm of
        None \<Rightarrow> []
      | Some i \<Rightarrow> if 0 < i \<and> i + 1 < length nm then drop i nm else [])"

definition suffix :: "path \<Rightarrow> string" where
  "suffix p = suffix_of_name (name_of p)"

definition with_suffix :: "path \<Rightarrow> string \<Rightarrow> exn + path" where
  "with_suffix p sfx =
     (if CHR ''/'' \<in> set sfx \<or> (sfx \<noteq> [] \<and> hd sfx \<noteq> CHR ''.'') \<or> sfx = ''.''
      then Inl (ValueError ''Invalid suffix'')
      else if name_of p = [] then Inl (ValueError ''empty name'')
      else let nm = name_of p; old = suffix p;
               nm' = (if old = [] then nm @ sfx else take (length nm - length old) nm @ sfx)
           in Inr (butlast p @ [nm']))"

definition relative_to :: "path \<Rightarrow> path \<Rightarrow> exn + path" where
  "relative_to p anc =
     (if take (length anc) p = anc then Inr (drop (length anc) p)
      else Inl (ValueError ''not in the subpath''))"

definition str_path :: "path \<Rightarrow> string" where
  "str_path p = concat (map (\<lambda>c. CHR ''/'' # c) p)"

section \<open>Floating point\<close>

text \<open>
  Python's floats are not modelled bit by bit. Every float operation of the source goes
  through a rounding function \<open>rnd\<close>, a parameter of the model, applied to the exact
  result. The theorems that depend on the computed numbers assume only that \<open>rnd\<close> has
  the relative accuracy of IEEE double precision (\<open>float_rounding\<close>); the identity
  function is one such rounding. \<open>int(x)\<close> truncates towards zero.
\<close>

definition float_rounding :: "(real \<Rightarrow> real) \<Rightarrow> bool" where
  "float_rounding rnd \<longleftrightarrow> (\<forall>x. \<bar>rnd x - x\<bar> * 2 ^ 53 \<le> \<bar>x\<bar>)"

definition fdiv :: "(real \<Rightarrow> real) \<Rightarrow> real \<Rightarrow> real \<Rightarrow> exn + real" where
  "fdiv rnd a b = (if b = 0 then Inl ZeroDivisionError else Inr (rnd (a / b)))"

definition fmul :: "(real \<Rightarrow> real) \<Rightarrow> real \<Rightarrow> real \<Rightarrow> real" where
  "fmul rnd a b = rnd (a * b)"

definition fadd :: "(real \<Rightarrow> real) \<Rightarrow> real \<Rightarrow> real \<Rightarrow> real" where
  "fadd rnd a b = rnd (a + b)"

definition fsub :: "(real \<Rightarrow> real) \<Rightarrow> real \<Rightarrow> real \<Rightarrow> real" where
  "fsub rnd a b = rnd (a - b)"

definition py_int :: "real \<Rightarrow> int" where
  "py_int x = (if 0 \<le> x then \<lfloor>x\<rfloor> else \<lceil>x\<rceil>)"

section \<open>Configuration constants (identical in both scripts)\<close>

definition IMAGE_QUALITY :: nat where "IMAGE_QUALITY = 75"
definition IMAGE_MAX_WIDTH :: nat where "IMAGE_MAX_WIDTH = 1920"
definition IMAGE_MAX_HEIGHT :: nat where "IMAGE_MAX_HEIGHT = 1080"
definition CONVERT_TO_WEBP :: bool where "CONVERT_TO_WEBP = True"
definition VIDEO_CRF :: nat where "VIDEO_CRF = 28"
definition VIDEO_MAX_HEIGHT :: nat where "VIDEO_MAX_HEIGHT = 720"
definition VIDEO_AUDIO_BITRATE :: string where "VIDEO_AUDIO_BITRATE = ''96k''"

definition IMAGE_EXTENSIONS :: "string list" where
  "IMAGE_EXTENSIONS =
     [''.jpg'', ''.jpeg'', ''.png'', ''.webp'', ''.JPG'', ''.JPEG'', ''.PNG'', ''.WEBP'']"

definition VIDEO_EXTENSIONS :: "string list" where
  "VIDEO_EXTENSIONS =
     [''.mp4'', ''.mov'', ''.avi'', ''.mkv'', ''.MP4'', ''.MOV'', ''.AVI'', ''.MKV'']"

section \<open>Images (the part of Pillow the scripts use)\<close>

text \<open>
  An image carries its mode and its pixel dimensions. Its pixel data is a symbolic term
  recording which library operations produced it: the library's decoding, conversion,
  compositing and resampling are not re-implemented, only named.
\<close>

datatype pixels =
    Decoded "nat list"
  | Converted string pixels
  | OnWhite pixels
  | Lanczos int int pixels

record image =
  mode :: string
  width :: nat
  height :: nat
  pix :: pixels

definition convert :: "image \<Rightarrow> string \<Rightarrow> image" where
  "convert img m = img\<lparr>mode := m, pix := Converted m (pix img)\<rparr>"

text \<open>Lines 64-72 of optimize_media.py (42-49 of optimize_productos.py).\<close>

definition flatten_mode :: "image \<Rightarrow> image" where
  "flatten_mode img =
     (if mode img = ''RGBA'' \<or> mode img = ''P'' then
        let img' = (if mode img = ''P'' then convert img ''RGBA'' else img)
        in \<lparr>mode = ''RGB'', width = width img, height = height img, pix = OnWhite (pix img')\<rparr>
      else if mode img \<noteq> ''RGB'' then convert img ''RGB''
      else img)"

text \<open>
  \<open>ratio = min(IMAGE_MAX_WIDTH / img.width, IMAGE_MAX_HEIGHT / img.height)\<close> and
  \<open>new_size = (int(img.width * ratio), int(img.height * ratio))\<close>.
\<close>

definition new_size :: "(real \<Rightarrow> real) \<Rightarrow> nat \<Rightarrow> nat \<Rightarrow> exn + int \<times> int" where
  "new_size rnd w h =
     (case fdiv rnd (real IMAGE_MAX_WIDTH) (real w) of
        Inl e \<Rightarrow> Inl e
      | Inr rw \<Rightarrow>
          (case fdiv rnd (real IMAGE_MAX_HEIGHT) (real h) of
             Inl e \<Rightarrow> Inl e
           | Inr rh \<Rightarrow>
               let ratio = min rw rh
               in Inr (py_int (fmul rnd (real w) ratio), py_int (fmul rnd (real h) ratio))))"

text \<open>\<open>Image.resize\<close> refuses a size with a dimension below one pixel.\<close>

definition pil_resize :: "image \<Rightarrow> int \<times> int \<Rightarrow> exn + image" where
  "pil_resize img sz =
     (if fst sz < 1 \<or> snd sz < 1 then Inl (ValueError ''height and width must be > 0'')
      else Inr (img\<lparr>width := nat (fst sz), height := nat (snd sz),
                     pix := Lanczos (fst sz) (snd sz) (pix img)\<rparr>))"

text \<open>Lines 75-80 of optimize_media.py (51-55 of optimize_productos.py).\<close>

definition resize_if_larger :: "(real \<Rightarrow> real) \<Rightarrow> image \<Rightarrow> exn + image" where
  "resize_if_larger rnd img =
     (if width img > IMAGE_MAX_WIDTH \<or> height img > IMAGE_MAX_HEIGHT then
        (case new_size rnd (width img) (height img) of
           Inl e \<Rightarrow> Inl e
         | Inr sz \<Rightarrow> pil_resize img sz)
      else Inr img)"


section \<open>The filesystem\<close>

text \<open>
  The filesystem is an association list from paths to nodes: a regular file with its bytes
  and its metadata (one number standing for times and permission bits), or a directory.
  The root always exists. Filesystem errors are those of the tree's shape (a missing
  entry, a file where a directory is needed, a directory where a file is needed) and
  those of permissions: an operation that creates or writes an entry takes the predicate
  \<open>ro\<close> of the paths the process may not create or write (a read-only directory or
  volume). Quotas and devices are not modelled.
\<close>

type_synonym bytes = "nat list"

datatype node = File (content: bytes) (stamp: nat) | Dir

type_synonym fs = "(path \<times> node) list"

definition node_at :: "fs \<Rightarrow> path \<Rightarrow> node option" where
  "node_at fs p = (if p = [] then Some Dir else map_of fs p)"

definition put_node :: "fs \<Rightarrow> path \<Rightarrow> node \<Rightarrow> fs" where
  "put_node fs p n = AList.update p n fs"

definition path_exists :: "fs \<Rightarrow> path \<Rightarrow> bool" where
  "path_exists fs p \<longleftrightarrow> node_at fs p \<noteq> None"

definition is_file :: "fs \<Rightarrow> path \<Rightarrow> bool" where
  "is_file fs p = (case node_at fs p of Some (File c m) \<Rightarrow> True | _ \<Rightarrow> False)"

text \<open>
  \<open>Path.mkdir(parents=True, exist_ok=True)\<close>, walking down from the root: an existing
  directory is accepted, a missing one is created, a regular file in the way is an error.
\<close>

fun mkdirs :: "(path \<Rightarrow> bool) \<Rightarrow> fs \<Rightarrow> path \<Rightarrow> string list \<Rightarrow> exn + fs" where
  "mkdirs ro fs cur [] = Inr fs"
| "mkdirs ro fs cur (d # ds) =
     (case node_at fs (cur @ [d]) of
        Some Dir \<Rightarrow> mkdirs ro fs (cur @ [d]) ds
      | Some (File c m) \<Rightarrow> Inl (if ds = [] then FileExistsError (cur @ [d])
                                  else NotADirectoryError (cur @ d # ds))
      | None \<Rightarrow>
          if ro (cur @ [d]) then Inl (PermissionError (cur @ [d]))
          else mkdirs ro (put_node fs (cur @ [d]) Dir) (cur @ [d]) ds)"

definition mkdir_parents :: "(path \<Rightarrow> bool) \<Rightarrow> fs \<Rightarrow> path \<Rightarrow> exn + fs" where
  "mkdir_parents ro fs p = mkdirs ro fs [] p"

text \<open>Opening a path for writing (\<open>open(p, 'wb')\<close>) and storing a whole file there.\<close>

definition write_file :: "(path \<Rightarrow> bool) \<Rightarrow> fs \<Rightarrow> path \<Rightarrow> node \<Rightarrow> exn + fs" where
  "write_file ro fs p n =
     (case node_at fs p of
        Some Dir \<Rightarrow> Inl (IsADirectoryError p)
      | _ \<Rightarrow>
          (case node_at fs (parent p) of
             Some Dir \<Rightarrow> if ro p then Inl (PermissionError p) else Inr (put_node fs p n)
           | Some (File c m) \<Rightarrow> Inl (NotADirectoryError p)
           | None \<Rightarrow> Inl (FileNotFoundError p)))"

text \<open>
  \<open>shutil.copy2(src, dst)\<close>: a destination that is a directory receives the file under
  the source's name; copying a file onto itself is refused; contents and metadata are
  both copied.
\<close>

definition copy2 :: "(path \<Rightarrow> bool) \<Rightarrow> fs \<Rightarrow> path \<Rightarrow> path \<Rightarrow> exn + fs" where
  "copy2 ro fs src dst =
     (let target = (if node_at fs dst = Some Dir then dst @ [name_of src] else dst)
      in case node_at fs src of
           None \<Rightarrow> Inl (FileNotFoundError src)
         | Some Dir \<Rightarrow> Inl (IsADirectoryError src)
         | Some (File c m) \<Rightarrow>
             if target = src then Inl (SameFileError src target)
             else write_file ro fs target (File c m))"

text \<open>
  \<open>root.rglob('*')\<close> lists every entry strictly below \<open>root\<close>, in the order the
  filesystem yields them (here: the order of the association list).
\<close>

definition rglob :: "fs \<Rightarrow> path \<Rightarrow> path list" where
  "rglob fs top_dir =
     filter (\<lambda>p. length top_dir < length p \<and> take (length top_dir) p = top_dir) (map fst fs)"

section \<open>The environment: codecs, the external transcoder, the clock\<close>

text \<open>
  What the scripts cannot decide themselves is a parameter of the model: how the image
  library decodes and encodes, what the external transcoder does, how floats round, where
  the script lives, which paths the process may not write, how the exceptions of the
  interpreter and the libraries print. The theorems hold for every environment.
\<close>

text \<open>
  The arguments of \<open>img.save\<close> besides the path: the format name when one is given, the
  \<open>quality\<close> keyword, and the one encoder-tuning keyword the call passes (\<open>method=6\<close>
  for WebP, \<open>optimize=True\<close> otherwise).
\<close>

datatype tuning = Method nat | Optimize bool

datatype save_args = SaveArgs (format_arg: "string option") (quality_arg: nat) (tuning_arg: tuning)

text \<open>
  The outcome of \<open>subprocess.run(cmd, capture_output=True, text=True, timeout=600)\<close>: the
  executable is missing, the time limit passed, or the process ended with an exit code and
  its diagnostic output. The optional bytes are what the tool left at its output path.
\<close>

datatype proc = ToolMissing | TimedOut "bytes option" | Completed int string "bytes option"

record env =
  fl :: "real \<Rightarrow> real"
  script_dir :: path
  read_only :: "path \<Rightarrow> bool"
  decode :: "bytes \<Rightarrow> exn + image"
  encode :: "image \<Rightarrow> path \<Rightarrow> save_args \<Rightarrow> exn + bytes"
  run_tool :: "fs \<Rightarrow> string list \<Rightarrow> nat \<Rightarrow> proc"
  exn_text :: "exn \<Rightarrow> string"
  dir_size :: nat
  clock :: nat

definition st_size :: "env \<Rightarrow> fs \<Rightarrow> path \<Rightarrow> exn + nat" where
  "st_size env fs p =
     (case node_at fs p of
        None \<Rightarrow> Inl (FileNotFoundError p)
      | Some Dir \<Rightarrow> Inr (dir_size env)
      | Some (File c m) \<Rightarrow> Inr (length c))"

definition get_file_size_mb :: "env \<Rightarrow> fs \<Rightarrow> path \<Rightarrow> exn + real" where
  "get_file_size_mb env fs file_path =
     (case st_size env fs file_path of
        Inl e \<Rightarrow> Inl e
      | Inr n \<Rightarrow> fdiv (fl env) (real n) (1024 * 1024))"

text \<open>\<open>Image.open(source_path)\<close> together with the decoding it triggers.\<close>

definition open_image :: "env \<Rightarrow> fs \<Rightarrow> path \<Rightarrow> exn + image" where
  "open_image env fs p =
     (case node_at fs p of
        None \<Rightarrow> Inl (FileNotFoundError p)
      | Some Dir \<Rightarrow> Inl (IsADirectoryError p)
      | Some (File c m) \<Rightarrow> decode env c)"

text \<open>
  \<open>img.save(path, ...)\<close>: the file is opened for writing, the image encoded, the bytes
  stored. A save that fails is modelled as leaving the filesystem as it was.
\<close>

definition pil_save :: "env \<Rightarrow> fs \<Rightarrow> image \<Rightarrow> path \<Rightarrow> save_args \<Rightarrow> exn + fs" where
  "pil_save env fs img p args =
     (case write_file (read_only env) fs p (File [] (clock env)) of
        Inl e \<Rightarrow> Inl e
      | Inr fs_opened \<Rightarrow>
          (case encode env img p args of
             Inl e \<Rightarrow> Inl e
           | Inr data \<Rightarrow> Inr (put_node fs p (File data (clock env)))))"

text \<open>
  \<open>str(e)\<close>, the text the handlers store under \<open>error\<close>. An \<open>Exception\<close> built from one
  argument prints as that argument. The text of every other exception is composed by the
  interpreter, the operating system and the libraries from what the exception carries
  (the file name, the command line); it is the environment's \<open>exn_text\<close>.
\<close>

definition str_exn :: "env \<Rightarrow> exn \<Rightarrow> string" where
  "str_exn env e = (case e of Exception m \<Rightarrow> m | _ \<Rightarrow> exn_text env e)"

section \<open>optimize_image\<close>

text \<open>
  The result dictionary. The keys the source adds later (\<open>optimized_size_mb\<close>,
  \<open>reduction_percent\<close>, \<open>resized\<close>) are optional fields: \<open>None\<close> is a missing key.
  The key \<open>output\<close> is the field \<open>outpath\<close> (\<open>output\<close> is reserved in Isabelle).
\<close>

record result =
  source :: path
  outpath :: path
  original_size_mb :: real
  success :: bool
  error :: "string option"
  optimized_size_mb :: "real option"
  reduction_percent :: "real option"
  resized :: "bool option"

text \<open>Lines 82-89 of optimize_media.py (57-62 of optimize_productos.py).\<close>

definition save_image :: "env \<Rightarrow> fs \<Rightarrow> image \<Rightarrow> path \<Rightarrow> exn + path \<times> fs" where
  "save_image env fs img output_path =
     (if CONVERT_TO_WEBP then
        (case with_suffix output_path ''.webp'' of
           Inl e \<Rightarrow> Inl e
         | Inr final_output \<Rightarrow>
             (case pil_save env fs img final_output
                     (SaveArgs (Some ''WEBP'') IMAGE_QUALITY (Method 6)) of
                Inl e \<Rightarrow> Inl e
              | Inr fs' \<Rightarrow> Inr (final_output, fs')))
      else
        (case pil_save env fs img output_path (SaveArgs None IMAGE_QUALITY (Optimize True)) of
           Inl e \<Rightarrow> Inl e
         | Inr fs' \<Rightarrow> Inr (output_path, fs')))"

text \<open>
  The \<open>with Image.open(source_path) as img:\<close> block (lines 62-89; 41-62 in
  optimize_productos.py): decode, normalise the mode, resize, encode and write. It yields
  the path written, the size before resizing, the image that was encoded, and the new
  filesystem; or the exception of the step that failed.
\<close>

definition with_image_block ::
  "env \<Rightarrow> fs \<Rightarrow> path \<Rightarrow> path \<Rightarrow> exn + path \<times> (nat \<times> nat) \<times> image \<times> fs" where
  "with_image_block env fs source_path output_path =
     (case open_image env fs source_path of
        Inl e \<Rightarrow> Inl e
      | Inr img0 \<Rightarrow>
          (let img1 = flatten_mode img0; original_size = (width img1, height img1)
           in case resize_if_larger (fl env) img1 of
                Inl e \<Rightarrow> Inl e
              | Inr img2 \<Rightarrow>
                  (case save_image env fs img2 output_path of
                     Inl e \<Rightarrow> Inl e
                   | Inr (final_output, fs') \<Rightarrow> Inr (final_output, original_size, img2, fs'))))"

text \<open>
  The body of the \<open>try\<close> block. It works on the result dictionary and the filesystem and
  returns the exception that ended it, if any; what it had stored in the dictionary and
  written to disk before the exception stays. The two scripts differ in one line: only
  optimize_media.py stores \<open>resized\<close>.
\<close>

definition image_try ::
  "bool \<Rightarrow> env \<Rightarrow> path \<Rightarrow> path \<Rightarrow> result \<Rightarrow> fs \<Rightarrow> exn option \<times> result \<times> fs" where
  "image_try stores_resized env source_path output_path res fs =
     (case mkdir_parents (read_only env) fs (parent output_path) of
        Inl e \<Rightarrow> (Some e, res, fs)
      | Inr fs1 \<Rightarrow>
     (case with_image_block env fs1 source_path output_path of
        Inl e \<Rightarrow> (Some e, res, fs1)
      | Inr (final_output, original_size, img, fs2) \<Rightarrow>
     (let res1 = res\<lparr>outpath := final_output\<rparr>
      in case get_file_size_mb env fs2 final_output of
        Inl e \<Rightarrow> (Some e, res1, fs2)
      | Inr opt \<Rightarrow>
     (let res2 = res1\<lparr>optimized_size_mb := Some opt\<rparr>
      in case fdiv (fl env) opt (original_size_mb res2) of
        Inl e \<Rightarrow> (Some e, res2, fs2)
      | Inr q \<Rightarrow>
          (let res3 = res2\<lparr>reduction_percent := Some (fmul (fl env) (fsub (fl env) 1 q) 100),
                            success := True\<rparr>
           in (None,
               if stores_resized
               then res3\<lparr>resized := Some (original_size \<noteq> (width img, height img))\<rparr>
               else res3,
               fs2))))))"

text \<open>
  The statements of an \<open>except\<close> block (the same in every handler of both scripts, but for
  the message): record the error, copy the original, measure the copy, report no reduction.
  Nothing guards these statements: an exception here leaves the function.
\<close>

definition fallback_copy ::
  "env \<Rightarrow> path \<Rightarrow> path \<Rightarrow> string \<Rightarrow> result \<Rightarrow> fs \<Rightarrow> (exn + result) \<times> fs" where
  "fallback_copy env source_path output_path msg res fs =
     (let res1 = res\<lparr>error := Some msg\<rparr>
      in case copy2 (read_only env) fs source_path output_path of
           Inl e \<Rightarrow> (Inl e, fs)
         | Inr fs' \<Rightarrow>
             (case get_file_size_mb env fs' output_path of
                Inl e \<Rightarrow> (Inl e, fs')
              | Inr sz \<Rightarrow>
                  (Inr (res1\<lparr>optimized_size_mb := Some sz, reduction_percent := Some 0\<rparr>), fs')))"

definition optimize_image_of ::
  "bool \<Rightarrow> env \<Rightarrow> path \<Rightarrow> path \<Rightarrow> fs \<Rightarrow> (exn + result) \<times> fs" where
  "optimize_image_of stores_resized env source_path output_path fs =
     (case get_file_size_mb env fs source_path of
        Inl e \<Rightarrow> (Inl e, fs)
      | Inr orig \<Rightarrow>
          (let res0 = \<lparr>source = source_path, outpath = output_path, original_size_mb = orig,
                       success = False, error = None, optimized_size_mb = None,
                       reduction_percent = None, resized = None\<rparr>
           in case image_try stores_resized env source_path output_path res0 fs of
                (None, res, fs') \<Rightarrow> (Inr res, fs')
              | (Some e, res, fs') \<Rightarrow>
                  fallback_copy env source_path output_path (str_exn env e) res fs'))"

text \<open>\<open>optimize_image\<close> of optimize_media.py and of optimize_productos.py.\<close>

definition optimize_image :: "env \<Rightarrow> path \<Rightarrow> path \<Rightarrow> fs \<Rightarrow> (exn + result) \<times> fs" where
  "optimize_image = optimize_image_of True"

definition optimize_image_productos ::
  "env \<Rightarrow> path \<Rightarrow> path \<Rightarrow> fs \<Rightarrow> (exn + result) \<times> fs" where
  "optimize_image_productos = optimize_image_of False"

section \<open>optimize_video\<close>

fun str_nat :: "nat \<Rightarrow> string" where
  "str_nat n =
     (if n < 10 then [char_of (48 + n)]
      else str_nat (n div 10) @ [char_of (48 + n mod 10)])"

text \<open>\<open>s[-k:]\<close>: the last \<open>k\<close> characters, the whole string when it is shorter.\<close>

definition last_chars :: "nat \<Rightarrow> string \<Rightarrow> string" where
  "last_chars k s = drop (length s - k) s"

definition ffmpeg_cmd :: "path \<Rightarrow> path \<Rightarrow> string list" where
  "ffmpeg_cmd source_path output_path =
     [''ffmpeg'',
      ''-i'', str_path source_path,
      ''-c:v'', ''libx264'',
      ''-crf'', str_nat VIDEO_CRF,
      ''-preset'', ''slow'',
      ''-vf'', ''scale=-2:'' @ str_nat VIDEO_MAX_HEIGHT @ '':flags=lanczos'',
      ''-c:a'', ''aac'',
      ''-b:a'', VIDEO_AUDIO_BITRATE,
      ''-movflags'', ''+faststart'',
      ''-y'',
      str_path output_path]"

text \<open>
  \<open>subprocess.run(cmd, capture_output=True, text=True, timeout=600)\<close>. A missing
  executable raises \<open>FileNotFoundError\<close>, a passed time limit \<open>TimeoutExpired\<close>; otherwise
  the exit code and the diagnostic output come back. Whatever the tool wrote is stored at
  its output path, when that path can be written.
\<close>

definition tool_effect :: "env \<Rightarrow> fs \<Rightarrow> path \<Rightarrow> bytes option \<Rightarrow> fs" where
  "tool_effect env fs output_path written =
     (case written of
        None \<Rightarrow> fs
      | Some data \<Rightarrow>
          (case write_file (read_only env) fs output_path (File data (clock env)) of
             Inl e \<Rightarrow> fs
           | Inr fs' \<Rightarrow> fs'))"

definition subprocess_run ::
  "env \<Rightarrow> fs \<Rightarrow> string list \<Rightarrow> path \<Rightarrow> nat \<Rightarrow> (exn + int \<times> string) \<times> fs" where
  "subprocess_run env fs cmd output_path timeout =
     (case run_tool env fs cmd timeout of
        ToolMissing \<Rightarrow> (Inl (FileNotFoundError (take 1 cmd)), fs)
      | TimedOut written \<Rightarrow>
          (Inl (TimeoutExpired cmd timeout), tool_effect env fs output_path written)
      | Completed returncode stderr written \<Rightarrow>
          (Inr (returncode, stderr), tool_effect env fs output_path written))"

text \<open>The body of the \<open>try\<close> block of \<open>optimize_video\<close> (lines 120-155).\<close>

definition video_try ::
  "env \<Rightarrow> path \<Rightarrow> path \<Rightarrow> result \<Rightarrow> fs \<Rightarrow> exn option \<times> result \<times> fs" where
  "video_try env source_path output_path res fs =
     (case mkdir_parents (read_only env) fs (parent output_path) of
        Inl e \<Rightarrow> (Some e, res, fs)
      | Inr fs1 \<Rightarrow>
     (case subprocess_run env fs1 (ffmpeg_cmd source_path output_path) output_path 600 of
        (Inl e, fs2) \<Rightarrow> (Some e, res, fs2)
      | (Inr (returncode, stderr), fs2) \<Rightarrow>
     (if returncode \<noteq> 0
      then (Some (Exception (''FFmpeg error: '' @ last_chars 500 stderr)), res, fs2)
      else
     (case get_file_size_mb env fs2 output_path of
        Inl e \<Rightarrow> (Some e, res, fs2)
      | Inr opt \<Rightarrow>
     (let res1 = res\<lparr>optimized_size_mb := Some opt\<rparr>
      in case fdiv (fl env) opt (original_size_mb res1) of
        Inl e \<Rightarrow> (Some e, res1, fs2)
      | Inr q \<Rightarrow>
          (None,
           res1\<lparr>reduction_percent := Some (fmul (fl env) (fsub (fl env) 1 q) 100),
                success := True\<rparr>,
           fs2))))))"

definition optimize_video :: "env \<Rightarrow> path \<Rightarrow> path \<Rightarrow> fs \<Rightarrow> (exn + result) \<times> fs" where
  "optimize_video env source_path output_path fs =
     (case get_file_size_mb env fs source_path of
        Inl e \<Rightarrow> (Inl e, fs)
      | Inr orig \<Rightarrow>
          (let res0 = \<lparr>source = source_path, outpath = output_path, original_size_mb = orig,
                       success = False, error = None, optimized_size_mb = None,
                       reduction_percent = None, resized = None\<rparr>
           in case video_try env source_path output_path res0 fs of
                (None, res, fs') \<Rightarrow> (Inr res, fs')
              | (Some (FileNotFoundError p), res, fs') \<Rightarrow>
                  fallback_copy env source_path output_path ''FFmpeg no encontrado'' res fs'
              | (Some e, res, fs') \<Rightarrow>
                  fallback_copy env source_path output_path (str_exn env e) res fs'))"

section \<open>The batch runs\<close>

text \<open>
  Console output is a list of lines, one per \<open>print\<close> call, each carrying the values the
  source formats into it (number formatting, accents and emoji are left out). The world a
  run works on is the filesystem, the console, and a trace: the trace is not a variable of
  the source, it records which operation the loop body performed on which file.
\<close>

datatype line =
    Rule
  | Dashes
  | Note string
  | Origin path
  | Destination path
  | FormatLine string
  | QualityLine nat
  | MaxResolutionLine nat nat
  | CrfLine nat
  | MaxHeightLine nat
  | AudioLine string
  | MissingSource path
  | Found nat
  | Progress nat nat path
  | CopiedUnchanged
  | Optimized real real real
  | Failed "string option"
  | SummaryTitle
  | CategoryTitle string
  | ProcessedLine nat
  | OriginalLine real
  | OptimizedLine real
  | ReductionLine real
  | ErrorsLine nat
  | TotalTitle
  | TotalOriginal real
  | TotalOptimized real
  | Savings real real
  | SavedIn path

datatype event =
    ImageResult path path result
  | VideoResult path path result
  | Copied path path

record world =
  fsys :: fs
  console :: "line list"
  trace :: "event list"

definition say :: "world \<Rightarrow> line list \<Rightarrow> world" where
  "say w ls = w\<lparr>console := console w @ ls\<rparr>"

fun event_source :: "event \<Rightarrow> path" where
  "event_source (ImageResult s d r) = s"
| "event_source (VideoResult s d r) = s"
| "event_source (Copied s d) = s"

record stats =
  processed :: nat
  original_size :: real
  optimized_size :: real
  errors :: nat

definition no_stats :: stats where
  "no_stats = \<lparr>processed = 0, original_size = 0, optimized_size = 0, errors = 0\<rparr>"

text \<open>
  Lines 229-238 of optimize_media.py (111-120 of optimize_productos.py): fold a result into
  the statistics of its category and print its line. Reading a key the result does not
  have would be a \<open>KeyError\<close>.
\<close>

definition account :: "env \<Rightarrow> result \<Rightarrow> stats \<Rightarrow> world \<Rightarrow> (exn + stats) \<times> world" where
  "account env res st w =
     (case optimized_size_mb res of
        None \<Rightarrow> (Inl (KeyError ''optimized_size_mb''), w)
      | Some opt \<Rightarrow>
          (let st1 = st\<lparr>processed := processed st + 1,
                         original_size := fadd (fl env) (original_size st) (original_size_mb res),
                         optimized_size := fadd (fl env) (optimized_size st) opt\<rparr>
           in if success res then
                (case reduction_percent res of
                   None \<Rightarrow> (Inl (KeyError ''reduction_percent''), w)
                 | Some red \<Rightarrow> (Inr st1, say w [Optimized (original_size_mb res) opt red]))
              else (Inr (st1\<lparr>errors := errors st1 + 1\<rparr>), say w [Failed (error res)])))"

subsection \<open>optimize_media.py\<close>

definition SOURCE_DIR :: "env \<Rightarrow> path" where
  "SOURCE_DIR env = script_dir env @ [''Servicios'']"

definition OUTPUT_DIR :: "env \<Rightarrow> path" where
  "OUTPUT_DIR env = script_dir env @ [''ServiciosOptimized'']"

record media_stats =
  images :: stats
  videos :: stats

text \<open>\<open>files_to_process = [f for f in SOURCE_DIR.rglob('*') if f.is_file()]\<close>\<close>

definition files_to_process :: "env \<Rightarrow> fs \<Rightarrow> path list" where
  "files_to_process env fs = filter (is_file fs) (rglob fs (SOURCE_DIR env))"

text \<open>The body of the loop (lines 209-238), for the file with number \<open>i\<close> of \<open>n\<close>.\<close>

definition process_file ::
  "env \<Rightarrow> nat \<Rightarrow> nat \<Rightarrow> path \<Rightarrow> media_stats \<Rightarrow> world \<Rightarrow> (exn + media_stats) \<times> world" where
  "process_file env i n source_file st w =
     (case relative_to source_file (SOURCE_DIR env) of
        Inl e \<Rightarrow> (Inl e, w)
      | Inr relative_path \<Rightarrow>
          (let output_file = OUTPUT_DIR env @ relative_path;
               w1 = say w [Progress i n relative_path]
           in if suffix source_file \<in> set IMAGE_EXTENSIONS then
                (case optimize_image env source_file output_file (fsys w1) of
                   (Inl e, fs') \<Rightarrow> (Inl e, w1\<lparr>fsys := fs'\<rparr>)
                 | (Inr res, fs') \<Rightarrow>
                     (case account env res (images st)
                             (w1\<lparr>fsys := fs',
                                 trace := trace w1 @ [ImageResult source_file output_file res]\<rparr>) of
                        (Inl e, w2) \<Rightarrow> (Inl e, w2)
                      | (Inr s, w2) \<Rightarrow> (Inr (st\<lparr>images := s\<rparr>), w2)))
              else if suffix source_file \<in> set VIDEO_EXTENSIONS then
                (case optimize_video env source_file output_file (fsys w1) of
                   (Inl e, fs') \<Rightarrow> (Inl e, w1\<lparr>fsys := fs'\<rparr>)
                 | (Inr res, fs') \<Rightarrow>
                     (case account env res (videos st)
                             (w1\<lparr>fsys := fs',
                                 trace := trace w1 @ [VideoResult source_file output_file res]\<rparr>) of
                        (Inl e, w2) \<Rightarrow> (Inl e, w2)
                      | (Inr s, w2) \<Rightarrow> (Inr (st\<lparr>videos := s\<rparr>), w2)))
              else
                (case mkdir_parents (read_only env) (fsys w1) (parent output_file) of
                   Inl e \<Rightarrow> (Inl e, w1)
                 | Inr fs1 \<Rightarrow>
                     (case copy2 (read_only env) fs1 source_file output_file of
                        Inl e \<Rightarrow> (Inl e, w1\<lparr>fsys := fs1\<rparr>)
                      | Inr fs2 \<Rightarrow>
                          (Inr st,
                           say (w1\<lparr>fsys := fs2,
                                    trace := trace w1 @ [Copied source_file output_file]\<rparr>)
                               [CopiedUnchanged])))))"

fun process_files ::
  "env \<Rightarrow> nat \<Rightarrow> nat \<Rightarrow> path list \<Rightarrow> media_stats \<Rightarrow> world \<Rightarrow> (exn + media_stats) \<times> world" where
  "process_files env i n [] st w = (Inr st, w)"
| "process_files env i n (f # rest) st w =
     (case process_file env i n f st w of
        (Inl e, w') \<Rightarrow> (Inl e, w')
      | (Inr st', w') \<Rightarrow> process_files env (i + 1) n rest st' w')"

text \<open>
  The reduction line of a summary: printed only when the summed original size is
  positive; the division is Python's, which raises on a zero divisor.
\<close>

definition reduction_lines :: "env \<Rightarrow> stats \<Rightarrow> exn + line list" where
  "reduction_lines env d =
     (if original_size d > 0 then
        (case fdiv (fl env) (optimized_size d) (original_size d) of
           Inl e \<Rightarrow> Inl e
         | Inr q \<Rightarrow> Inr [ReductionLine (fmul (fl env) (fsub (fl env) 1 q) 100)])
      else Inr [])"

definition error_lines :: "stats \<Rightarrow> line list" where
  "error_lines d = (if errors d > 0 then [ErrorsLine (errors d)] else [])"

text \<open>One round of the loop of lines 245-256.\<close>

definition category_summary :: "env \<Rightarrow> string \<Rightarrow> stats \<Rightarrow> exn + line list" where
  "category_summary env category d =
     (if processed d > 0 then
        (case reduction_lines env d of
           Inl e \<Rightarrow> Inl e
         | Inr red \<Rightarrow>
             Inr ([CategoryTitle category, ProcessedLine (processed d),
                   OriginalLine (original_size d), OptimizedLine (optimized_size d)]
                  @ red @ error_lines d))
      else Inr [])"

text \<open>Lines 258-265: \<open>sum\<close> starts from 0 and adds the categories in order.\<close>

definition total_lines :: "env \<Rightarrow> media_stats \<Rightarrow> exn + line list" where
  "total_lines env st =
     (let total_original =
            fadd (fl env) (fadd (fl env) 0 (original_size (images st))) (original_size (videos st));
          total_optimized =
            fadd (fl env) (fadd (fl env) 0 (optimized_size (images st))) (optimized_size (videos st))
      in if total_original > 0 then
           (case fdiv (fl env) total_optimized total_original of
              Inl e \<Rightarrow> Inl e
            | Inr q \<Rightarrow>
                Inr [TotalTitle, TotalOriginal total_original, TotalOptimized total_optimized,
                     Savings (fsub (fl env) total_original total_optimized)
                             (fmul (fl env) (fsub (fl env) 1 q) 100)])
         else Inr [TotalTitle, TotalOriginal total_original, TotalOptimized total_optimized])"

text \<open>Lines 240-268: the final summary (\<open>category.upper()\<close> is the title of a category).\<close>

definition summary :: "env \<Rightarrow> media_stats \<Rightarrow> exn + line list" where
  "summary env st =
     (case category_summary env ''IMAGES'' (images st) of
        Inl e \<Rightarrow> Inl e
      | Inr li \<Rightarrow>
          (case category_summary env ''VIDEOS'' (videos st) of
             Inl e \<Rightarrow> Inl e
           | Inr lv \<Rightarrow>
               (case total_lines env st of
                  Inl e \<Rightarrow> Inl e
                | Inr lt \<Rightarrow>
                    Inr ([Rule, SummaryTitle, Rule] @ li @ lv @ lt
                         @ [SavedIn (OUTPUT_DIR env), Rule]))))"

definition banner :: "env \<Rightarrow> line list" where
  "banner env =
     [Rule, Note ''OPTIMIZADOR AGRESIVO - Servicios -> ServiciosOptimized'', Rule,
      Origin (SOURCE_DIR env), Destination (OUTPUT_DIR env),
      Note ''Configuracion AGRESIVA:'',
      Note ''Imagenes:'',
      FormatLine (if CONVERT_TO_WEBP then ''WebP'' else ''Original''),
      QualityLine IMAGE_QUALITY,
      MaxResolutionLine IMAGE_MAX_WIDTH IMAGE_MAX_HEIGHT,
      Note ''Videos:'',
      CrfLine VIDEO_CRF,
      MaxHeightLine VIDEO_MAX_HEIGHT,
      AudioLine VIDEO_AUDIO_BITRATE,
      Dashes]"

text \<open>
  \<open>main\<close> of optimize_media.py. The value is \<open>Inr None\<close> for the early \<open>return\<close>,
  \<open>Inr (Some stats)\<close> when the function runs to its end (with the final value of its
  local \<open>stats\<close>), and \<open>Inl e\<close> when the exception \<open>e\<close> leaves it.
\<close>

definition main :: "env \<Rightarrow> world \<Rightarrow> (exn + media_stats option) \<times> world" where
  "main env w0 =
     (let w1 = say w0 (banner env)
      in if \<not> path_exists (fsys w1) (SOURCE_DIR env)
         then (Inr None, say w1 [MissingSource (SOURCE_DIR env)])
         else
           (case mkdir_parents (read_only env) (fsys w1) (OUTPUT_DIR env) of
              Inl e \<Rightarrow> (Inl e, w1)
            | Inr fs1 \<Rightarrow>
                (let st0 = \<lparr>images = no_stats, videos = no_stats\<rparr>;
                     files = files_to_process env fs1;
                     w2 = say (w1\<lparr>fsys := fs1\<rparr>) [Found (length files)]
                 in case process_files env 1 (length files) files st0 w2 of
                      (Inl e, w3) \<Rightarrow> (Inl e, w3)
                    | (Inr st, w3) \<Rightarrow>
                        (case summary env st of
                           Inl e \<Rightarrow> (Inl e, w3)
                         | Inr ls \<Rightarrow> (Inr (Some st), say w3 ls)))))"

subsection \<open>optimize_productos.py\<close>

definition SOURCE_DIR_productos :: "env \<Rightarrow> path" where
  "SOURCE_DIR_productos env = script_dir env @ [''Productos'']"

definition OUTPUT_DIR_productos :: "env \<Rightarrow> path" where
  "OUTPUT_DIR_productos env = script_dir env @ [''ProductosOptimized'']"

text \<open>
  \<open>files_to_process = [f for f in SOURCE_DIR.rglob('*')
                        if f.is_file() and f.suffix in IMAGE_EXTENSIONS]\<close>
\<close>

definition files_to_process_productos :: "env \<Rightarrow> fs \<Rightarrow> path list" where
  "files_to_process_productos env fs =
     filter (\<lambda>f. is_file fs f \<and> suffix f \<in> set IMAGE_EXTENSIONS)
            (rglob fs (SOURCE_DIR_productos env))"

text \<open>The body of the loop (lines 103-120).\<close>

definition process_file_productos ::
  "env \<Rightarrow> nat \<Rightarrow> nat \<Rightarrow> path \<Rightarrow> stats \<Rightarrow> world \<Rightarrow> (exn + stats) \<times> world" where
  "process_file_productos env i n source_file st w =
     (case relative_to source_file (SOURCE_DIR_productos env) of
        Inl e \<Rightarrow> (Inl e, w)
      | Inr relative_path \<Rightarrow>
          (let output_file = OUTPUT_DIR_productos env @ relative_path;
               w1 = say w [Progress i n relative_path]
           in case optimize_image_productos env source_file output_file (fsys w1) of
                (Inl e, fs') \<Rightarrow> (Inl e, w1\<lparr>fsys := fs'\<rparr>)
              | (Inr res, fs') \<Rightarrow>
                  account env res st
                    (w1\<lparr>fsys := fs',
                        trace := trace w1 @ [ImageResult source_file output_file res]\<rparr>)))"

fun process_files_productos ::
  "env \<Rightarrow> nat \<Rightarrow> nat \<Rightarrow> path list \<Rightarrow> stats \<Rightarrow> world \<Rightarrow> (exn + stats) \<times> world" where
  "process_files_productos env i n [] st w = (Inr st, w)"
| "process_files_productos env i n (f # rest) st w =
     (case process_file_productos env i n f st w of
        (Inl e, w') \<Rightarrow> (Inl e, w')
      | (Inr st', w') \<Rightarrow> process_files_productos env (i + 1) n rest st' w')"

text \<open>Lines 122-136: the final summary.\<close>

definition summary_productos :: "env \<Rightarrow> stats \<Rightarrow> exn + line list" where
  "summary_productos env st =
     (case reduction_lines env st of
        Inl e \<Rightarrow> Inl e
      | Inr red \<Rightarrow>
          Inr ([Rule, SummaryTitle, Rule,
                CategoryTitle ''IMAGENES'', ProcessedLine (processed st),
                OriginalLine (original_size st), OptimizedLine (optimized_size st)]
               @ red @ error_lines st
               @ [SavedIn (OUTPUT_DIR_productos env), Rule]))"

definition banner_productos :: "env \<Rightarrow> line list" where
  "banner_productos env =
     [Rule, Note ''OPTIMIZADOR - Productos -> ProductosOptimized'', Rule,
      Origin (SOURCE_DIR_productos env), Destination (OUTPUT_DIR_productos env),
      Note ''Configuracion:'',
      FormatLine (if CONVERT_TO_WEBP then ''WebP'' else ''Original''),
      QualityLine IMAGE_QUALITY,
      MaxResolutionLine IMAGE_MAX_WIDTH IMAGE_MAX_HEIGHT,
      Dashes]"

definition main_productos :: "env \<Rightarrow> world \<Rightarrow> (exn + stats option) \<times> world" where
  "main_productos env w0 =
     (let w1 = say w0 (banner_productos env)
      in if \<not> path_exists (fsys w1) (SOURCE_DIR_productos env)
         then (Inr None, say w1 [MissingSource (SOURCE_DIR_productos env)])
         else
           (case mkdir_parents (read_only env) (fsys w1) (OUTPUT_DIR_productos env) of
              Inl e \<Rightarrow> (Inl e, w1)
            | Inr fs1 \<Rightarrow>
                (let files = files_to_process_productos env fs1;
                     w2 = say (w1\<lparr>fsys := fs1\<rparr>) [Found (length files)]
                 in case process_files_productos env 1 (length files) files no_stats w2 of
                      (Inl e, w3) \<Rightarrow> (Inl e, w3)
                    | (Inr st, w3) \<Rightarrow>
                        (case summary_productos env st of
                           Inl e \<Rightarrow> (Inl e, w3)
                         | Inr ls \<Rightarrow> (Inr (Some st), say w3 ls)))))"

section \<open>Notions used to state the properties\<close>

text \<open>
  An event fits a source file when it is the one operation the dispatcher owes that file:
  an image result for an image extension, a video result for a video extension, a copy
  otherwise; always from the file itself to its mirrored path under the output directory.
\<close>

fun event_fits :: "path \<Rightarrow> path \<Rightarrow> path \<Rightarrow> event \<Rightarrow> bool" where
  "event_fits src_dir out_dir f (ImageResult s d r) =
     (s = f \<and> d = out_dir @ drop (length src_dir) f \<and> source r = f
      \<and> suffix f \<in> set IMAGE_EXTENSIONS)"
| "event_fits src_dir out_dir f (VideoResult s d r) =
     (s = f \<and> d = out_dir @ drop (length src_dir) f \<and> source r = f
      \<and> suffix f \<notin> set IMAGE_EXTENSIONS \<and> suffix f \<in> set VIDEO_EXTENSIONS)"
| "event_fits src_dir out_dir f (Copied s d) =
     (s = f \<and> d = out_dir @ drop (length src_dir) f
      \<and> suffix f \<notin> set IMAGE_EXTENSIONS \<and> suffix f \<notin> set VIDEO_EXTENSIONS)"

text \<open>The regular files below a directory, as the enumerator yields them.\<close>

definition regular_files :: "fs \<Rightarrow> path \<Rightarrow> path list" where
  "regular_files fs top_dir = filter (is_file fs) (rglob fs top_dir)"

text \<open>
  The three failure modes of the external transcoder, and the message each leaves: a fixed
  text when the executable is missing, the text of the \<open>TimeoutExpired\<close> raised for this
  command line and this time limit, and the last 500 characters of the diagnostic output
  behind a fixed prefix.
\<close>

definition tool_failed :: "proc \<Rightarrow> bool" where
  "tool_failed outcome =
     (case outcome of
        ToolMissing \<Rightarrow> True
      | TimedOut w \<Rightarrow> True
      | Completed rc err w \<Rightarrow> rc \<noteq> 0)"

definition failure_message :: "env \<Rightarrow> string list \<Rightarrow> nat \<Rightarrow> proc \<Rightarrow> string" where
  "failure_message env cmd timeout outcome =
     (case outcome of
        ToolMissing \<Rightarrow> ''FFmpeg no encontrado''
      | TimedOut w \<Rightarrow> str_exn env (TimeoutExpired cmd timeout)
      | Completed rc err w \<Rightarrow> ''FFmpeg error: '' @ last_chars 500 err)"

text \<open>Whether a call returned a result, with which success flag and output path.\<close>

definition outcome_of :: "(exn + result) \<times> fs \<Rightarrow> exn + bool \<times> path" where
  "outcome_of r = (case fst r of Inl e \<Rightarrow> Inl e | Inr res \<Rightarrow> Inr (success res, outpath res))"

section \<open>Concrete inputs\<close>

text \<open>
  The inputs at which the theorems below are instantiated: three images (the third 3840
  pixels wide and one pixel high), two environments (one where every codec and the
  external tool work, one where the image decoder rejects everything and the external
  tool is missing), a third like the second in which nothing can be written below the
  output directory, a fourth like the first in which every image file decodes to the
  3840 x 1 image, a fifth like the first on a read-only volume, and a small tree holding
  the source directories of both scripts.
\<close>

definition ex_small :: image where
  "ex_small = \<lparr>mode = ''RGBA'', width = 800, height = 600, pix = Decoded [1, 2, 3]\<rparr>"

definition ex_big :: image where
  "ex_big = \<lparr>mode = ''RGB'', width = 3000, height = 2000, pix = Decoded [4, 5]\<rparr>"

definition ex_thin :: image where
  "ex_thin = \<lparr>mode = ''RGB'', width = 3840, height = 1, pix = Decoded [1, 2, 3]\<rparr>"

definition ex_text :: "exn \<Rightarrow> string" where
  "ex_text e = (case e of ValueError m \<Rightarrow> m | KeyError k \<Rightarrow> k | _ \<Rightarrow> ''system error'')"

definition ex_env_ok :: env where
  "ex_env_ok =
     \<lparr>fl = (\<lambda>x. x), script_dir = [''srv''], read_only = (\<lambda>p. False),
      decode = (\<lambda>b. Inr \<lparr>mode = ''RGB'', width = 3000, height = 2000, pix = Decoded b\<rparr>),
      encode = (\<lambda>img p a. Inr [7]),
      run_tool = (\<lambda>fs cmd t. Completed 0 [] (Some [8])),
      exn_text = ex_text, dir_size = 4096, clock = 99\<rparr>"

definition ex_env_bad :: env where
  "ex_env_bad =
     \<lparr>fl = (\<lambda>x. x), script_dir = [''srv''], read_only = (\<lambda>p. False),
      decode = (\<lambda>b. Inl (Exception ''cannot identify image file'')),
      encode = (\<lambda>img p a. Inr [7]),
      run_tool = (\<lambda>fs cmd t. ToolMissing),
      exn_text = ex_text, dir_size = 4096, clock = 99\<rparr>"

definition ex_env_locked :: env where
  "ex_env_locked =
     ex_env_bad\<lparr>read_only := (\<lambda>p. take 2 p = [''srv'', ''ServiciosOptimized''] \<and> 2 < length p)\<rparr>"

definition ex_env_thin :: env where
  "ex_env_thin =
     ex_env_ok\<lparr>decode := (\<lambda>b. Inr \<lparr>mode = ''RGB'', width = 3840, height = 1, pix = Decoded b\<rparr>)\<rparr>"


definition ex_foto :: path where "ex_foto = [''srv'', ''Servicios'', ''foto.jpg'']"
definition ex_foto_out :: path where "ex_foto_out = [''srv'', ''ServiciosOptimized'', ''foto.jpg'']"
definition ex_clip :: path where "ex_clip = [''srv'', ''Servicios'', ''clip.mp4'']"
definition ex_clip_out :: path where "ex_clip_out = [''srv'', ''ServiciosOptimized'', ''clip.mp4'']"
definition ex_notas :: path where "ex_notas = [''srv'', ''Servicios'', ''notas.txt'']"
definition ex_notas_out :: path where "ex_notas_out = [''srv'', ''ServiciosOptimized'', ''notas.txt'']"
definition ex_logo :: path where "ex_logo = [''srv'', ''Servicios'', ''logo.webp'']"
definition ex_logo_out :: path where "ex_logo_out = [''srv'', ''ServiciosOptimized'', ''logo.webp'']"

definition ex_fs :: fs where
  "ex_fs =
     [([''srv''], Dir),
      ([''srv'', ''Servicios''], Dir),
      ([''srv'', ''Servicios'', ''foto.jpg''], File [1, 2, 3] 10),
      ([''srv'', ''Servicios'', ''clip.mp4''], File [4, 5] 11),
      ([''srv'', ''Servicios'', ''notas.txt''], File [6] 12),
      ([''srv'', ''Servicios'', ''logo.webp''], File [1, 2, 3] 13),
      ([''srv'', ''Productos''], Dir),
      ([''srv'', ''Productos'', ''silla.png''], File [1, 2, 3] 20),
      ([''srv'', ''Productos'', ''notas.txt''], File [6] 21),
      ([''srv'', ''Productos'', ''demo.mp4''], File [4, 5] 22)]"

definition ex_fs1 :: fs where
  "ex_fs1 = ex_fs @ [([''srv'', ''ServiciosOptimized''], Dir)]"

definition ex_world :: world where
  "ex_world = \<lparr>fsys = ex_fs, console = [], trace = []\<rparr>"

definition ex_bare_world :: world where
  "ex_bare_world = \<lparr>fsys = [([''srv''], Dir)], console = [], trace = []\<rparr>"


section \<open>Image dimensions\<close>

lemma rnd_upper: "float_rounding rnd \<Longrightarrow> 0 \<le> x \<Longrightarrow> rnd x \<le> x + x / 2 ^ 53"
proof -
  assume a: "float_rounding rnd" and x: "0 \<le> x"
  from a have "\<bar>rnd x - x\<bar> * 2 ^ 53 \<le> \<bar>x\<bar>" unfolding float_rounding_def by blast
  then have "\<bar>rnd x - x\<bar> \<le> x / 2 ^ 53" using x by (simp add: field_simps)
  then show ?thesis by linarith
qed

lemma rnd_lower: "float_rounding rnd \<Longrightarrow> 0 \<le> x \<Longrightarrow> x - x / 2 ^ 53 \<le> rnd x"
proof -
  assume a: "float_rounding rnd" and x: "0 \<le> x"
  from a have "\<bar>rnd x - x\<bar> * 2 ^ 53 \<le> \<bar>x\<bar>" unfolding float_rounding_def by blast
  then have "\<bar>rnd x - x\<bar> \<le> x / 2 ^ 53" using x by (simp add: field_simps)
  then show ?thesis by linarith
qed

lemma rnd_nonneg: "float_rounding rnd \<Longrightarrow> 0 \<le> x \<Longrightarrow> 0 \<le> rnd x"
proof -
  assume a: "float_rounding rnd" and x: "0 \<le> x"
  have "x / 2 ^ 53 \<le> x" using x by (simp add: field_simps)
  with rnd_lower[OF a x] show ?thesis by linarith
qed

lemma rnd_pos: "float_rounding rnd \<Longrightarrow> 0 < x \<Longrightarrow> 0 < rnd x"
proof -
  assume a: "float_rounding rnd" and x: "0 < x"
  have "x / 2 ^ 53 < x" using x by (simp add: field_simps)
  with rnd_lower[OF a, of x] x show ?thesis by linarith
qed

lemma shrink_bound:
  assumes fr: "float_rounding rnd" and x: "0 \<le> (x::real)" and r0: "0 \<le> r"
    and r: "r \<le> rnd q" and q0: "0 \<le> q" and q: "q \<le> 1920 / 1921"
  shows "rnd (x * r) \<le> x"
proof -
  have "rnd q \<le> q + q / 2 ^ 53" using rnd_upper[OF fr q0] .
  also have "\<dots> \<le> 1920 / 1921 + (1920 / 1921) / 2 ^ 53" using q by (simp add: field_simps)
  finally have rq: "r \<le> 1920 / 1921 + (1920 / 1921) / 2 ^ 53" using r by linarith
  have xr: "x * r \<le> x * (1920 / 1921 + (1920 / 1921) / 2 ^ 53)"
    using rq x by (intro mult_left_mono) auto
  have xr0: "0 \<le> x * r" using x r0 by simp
  have "rnd (x * r) \<le> x * r + (x * r) / 2 ^ 53" using rnd_upper[OF fr xr0] .
  also have "\<dots> \<le> x" using xr x by (simp add: field_simps)
  finally show ?thesis .
qed


lemma new_size_Inr:
  assumes "0 < w" "0 < h"
  shows "new_size rnd w h =
     Inr (py_int (rnd (real w * min (rnd (1920 / real w)) (rnd (1080 / real h)))),
          py_int (rnd (real h * min (rnd (1920 / real w)) (rnd (1080 / real h)))))"
  using assms
  by (simp add: new_size_def fdiv_def fmul_def IMAGE_MAX_WIDTH_def IMAGE_MAX_HEIGHT_def Let_def)

text \<open>
  A real within \<open>e\<close> of a fraction \<open>n / b\<close>, with \<open>e\<close> below \<open>1 / b\<close>, has as its floor that
  fraction rounded down, or one less when the fraction is a whole number.
\<close>

lemma floor_of_near_quotient:
  fixes n b :: nat and x e :: real
  assumes b: "0 < b" and e0: "0 \<le> e" and eb: "e * real b < 1"
    and near: "\<bar>x - real n / real b\<bar> \<le> e"
  shows "real n / real b - 1 \<le> real_of_int \<lfloor>x\<rfloor> \<and> real_of_int \<lfloor>x\<rfloor> \<le> real n / real b"
proof -
  define q where "q = n div b"
  define r where "r = n mod b"
  have rb: "r < b" unfolding r_def using b by simp
  have "n = q * b + r" unfolding q_def r_def by simp
  then have "real n = real q * real b + real r" by (metis of_nat_add of_nat_mult)
  then have t: "real n / real b = real q + real r / real b" using b by (simp add: field_simps)
  have b1: "1 \<le> real b" using b by simp
  have e1: "e < 1"
  proof -
    have "e * 1 \<le> e * real b" using e0 b1 by (intro mult_left_mono) auto
    then show ?thesis using eb by linarith
  qed
  have eb': "e < 1 / real b" using eb b by (simp add: field_simps)
  have lo: "real n / real b - e \<le> x" and hi: "x \<le> real n / real b + e"
    using near by (auto simp: abs_le_iff)
  show ?thesis
  proof (cases "r = 0")
    case True
    then have tq: "real n / real b = real q" using t by simp
    have "x < real q + 1" using hi tq e1 by linarith
    then have a: "\<lfloor>x\<rfloor> \<le> int q" by (simp add: floor_le_iff)
    have "real q - 1 \<le> x" using lo tq e1 by linarith
    then have "real_of_int (int q - 1) \<le> x" by simp
    then have c: "int q - 1 \<le> \<lfloor>x\<rfloor>" by (simp only: le_floor_iff)
    have a': "real_of_int \<lfloor>x\<rfloor> \<le> real q" using a by linarith
    have c': "real q - 1 \<le> real_of_int \<lfloor>x\<rfloor>" using c by linarith
    show ?thesis using a' c' tq by simp
  next
    case False
    then have r1: "1 \<le> real r" by simp
    have rb1: "real r + 1 \<le> real b" using rb by linarith
    have f1: "1 / real b \<le> real r / real b" using r1 b by (simp add: field_simps)
    have f2: "real r / real b \<le> 1 - 1 / real b" using rb1 b by (simp add: field_simps)
    have "real q \<le> x" using lo t f1 eb' by linarith
    then have "real_of_int (int q) \<le> x" by simp
    then have c: "int q \<le> \<lfloor>x\<rfloor>" by (simp only: le_floor_iff)
    have "x < real q + 1" using hi t f2 eb' by linarith
    then have a: "\<lfloor>x\<rfloor> \<le> int q" by (simp add: floor_le_iff)
    have fl: "real_of_int \<lfloor>x\<rfloor> = real q" using a c by linarith
    have f0: "0 \<le> real r / real b" by simp
    have f3: "real r / real b \<le> 1" using f2 b by (simp add: field_simps)
    show ?thesis using fl t f0 f3 by linarith
  qed
qed


lemma min_rounded:
  assumes fr: "float_rounding rnd" and a: "0 \<le> a" and b: "0 \<le> b"
  shows "min a b - min a b / 2 ^ 53 \<le> min (rnd a) (rnd b)
       \<and> min (rnd a) (rnd b) \<le> min a b + min a b / 2 ^ 53"
proof -
  have la: "a - a / 2 ^ 53 \<le> rnd a" and ua: "rnd a \<le> a + a / 2 ^ 53"
    using rnd_lower[OF fr a] rnd_upper[OF fr a] by simp_all
  have lb: "b - b / 2 ^ 53 \<le> rnd b" and ub: "rnd b \<le> b + b / 2 ^ 53"
    using rnd_lower[OF fr b] rnd_upper[OF fr b] by simp_all
  show ?thesis
  proof (cases "a \<le> b")
    case True
    then have m: "min a b = a" by simp
    have "a - a / 2 ^ 53 \<le> b - b / 2 ^ 53" using True by (simp add: field_simps)
    then show ?thesis using m la ua lb by (simp add: min_def)
  next
    case False
    then have m: "min a b = b" by simp
    have "b - b / 2 ^ 53 \<le> a - a / 2 ^ 53" using False by (simp add: field_simps)
    then show ?thesis using m la ub lb by (simp add: min_def)
  qed
qed


lemma scaled_error:
  assumes fr: "float_rounding rnd" and d: "0 \<le> (d::real)" and r0: "0 \<le> r"
    and t: "d * r \<le> 1920"
    and lo: "r - r / 2 ^ 53 \<le> r'" and hi: "r' \<le> r + r / 2 ^ 53"
  shows "\<bar>rnd (d * r') - d * r\<bar> \<le> 1 / 2 ^ 40"
proof -
  define t where "t = d * r"
  have t0: "0 \<le> t" unfolding t_def using d r0 by simp
  have tb: "t \<le> 1920" unfolding t_def using t .
  have r'0: "0 \<le> r'"
  proof -
    have "r / 2 ^ 53 \<le> r" using r0 by (simp add: field_simps)
    then show ?thesis using lo by linarith
  qed
  have y0: "0 \<le> d * r'" using d r'0 by simp
  have ylo: "t - t / 2 ^ 53 \<le> d * r'"
  proof -
    have "d * (r - r / 2 ^ 53) \<le> d * r'" using lo d by (intro mult_left_mono) auto
    then show ?thesis unfolding t_def by (simp add: algebra_simps)
  qed
  have yhi: "d * r' \<le> t + t / 2 ^ 53"
  proof -
    have "d * r' \<le> d * (r + r / 2 ^ 53)" using hi d by (intro mult_left_mono) auto
    then show ?thesis unfolding t_def by (simp add: algebra_simps)
  qed
  have xlo: "d * r' - (d * r') / 2 ^ 53 \<le> rnd (d * r')" using rnd_lower[OF fr y0] .
  have xhi: "rnd (d * r') \<le> d * r' + (d * r') / 2 ^ 53" using rnd_upper[OF fr y0] .
  have y4: "(d * r') / 2 ^ 53 \<le> (t + t / 2 ^ 53) / 2 ^ 53" using yhi by (simp add: field_simps)
  have t4: "t / 2 ^ 53 + (t + t / 2 ^ 53) / 2 ^ 53 \<le> 1 / 2 ^ 40"
    using t0 tb by (simp add: field_simps)
  have "rnd (d * r') - t \<le> 1 / 2 ^ 40" using xhi yhi y4 t4 by linarith
  moreover have "t - rnd (d * r') \<le> 1 / 2 ^ 40" using xlo ylo y4 t4 t0 by linarith
  ultimately show ?thesis unfolding t_def by linarith
qed

text \<open>
  The size the resize step computes, against the exact scale
  \<open>r = min (1920 / w) (1080 / h)\<close>: for every rounding as accurate as double precision each
  computed dimension is the exactly proportional value (\<open>w * r\<close>, \<open>h * r\<close>) rounded down,
  or one less. So neither dimension exceeds its maximum, and each is within one pixel of the
  size that has exactly the input's aspect ratio.
\<close>

lemma new_size_exact:
  assumes fr: "float_rounding rnd" and w: "0 < w" and h: "0 < h"
    and ws: "w < 2 ^ 40" and hs: "h < 2 ^ 40"
  shows "\<exists>ow oh. new_size rnd w h = Inr (ow, oh)
           \<and> real w * min (1920 / real w) (1080 / real h) - 1 \<le> real_of_int ow
           \<and> real_of_int ow \<le> real w * min (1920 / real w) (1080 / real h)
           \<and> real h * min (1920 / real w) (1080 / real h) - 1 \<le> real_of_int oh
           \<and> real_of_int oh \<le> real h * min (1920 / real w) (1080 / real h)"
proof -
  define r where "r = min (1920 / real w) (1080 / real h)"
  define r' where "r' = min (rnd (1920 / real w)) (rnd (1080 / real h))"
  define xw where "xw = rnd (real w * r')"
  define xh where "xh = rnd (real h * r')"
  have ns: "new_size rnd w h = Inr (py_int xw, py_int xh)"
    unfolding xw_def xh_def r'_def using new_size_Inr[OF w h] .
  have r0: "0 \<le> r" unfolding r_def by simp
  have rr: "r - r / 2 ^ 53 \<le> r' \<and> r' \<le> r + r / 2 ^ 53"
    unfolding r_def r'_def using min_rounded[OF fr, of "1920 / real w" "1080 / real h"] by simp
  have tw: "real w * r \<le> 1920"
  proof -
    have "real w * r \<le> real w * (1920 / real w)"
      unfolding r_def by (intro mult_left_mono) auto
    then show ?thesis using w by simp
  qed
  have th: "real h * r \<le> 1920"
  proof -
    have "real h * r \<le> real h * (1080 / real h)"
      unfolding r_def by (intro mult_left_mono) auto
    then show ?thesis using h by simp
  qed
  have ew: "\<bar>xw - real w * r\<bar> \<le> 1 / 2 ^ 40"
    unfolding xw_def using scaled_error[OF fr _ r0 tw] rr by simp
  have eh: "\<bar>xh - real h * r\<bar> \<le> 1 / 2 ^ 40"
    unfolding xh_def using scaled_error[OF fr _ r0 th] rr by simp
  have wsr: "1 / 2 ^ 40 * real w < 1"
  proof -
    have "real w < 2 ^ 40" using ws by (metis of_nat_less_iff of_nat_numeral of_nat_power)
    then show ?thesis by (simp add: field_simps)
  qed
  have hsr: "1 / 2 ^ 40 * real h < 1"
  proof -
    have "real h < 2 ^ 40" using hs by (metis of_nat_less_iff of_nat_numeral of_nat_power)
    then show ?thesis by (simp add: field_simps)
  qed
  have one: "1 / 2 ^ 40 * real (1::nat) < (1::real)" by simp
  have qw: "\<exists>n b. 0 < b \<and> 1 / 2 ^ 40 * real b < 1 \<and> real w * r = real n / real b"
  proof (cases "1920 / real w \<le> 1080 / real h")
    case True
    then have "real w * r = real (1920::nat) / real (1::nat)" unfolding r_def using w by simp
    then show ?thesis using one by blast
  next
    case False
    then have "real w * r = real (w * 1080) / real h" unfolding r_def using h by (simp add: min_def)
    then show ?thesis using hsr h by blast
  qed
  have qh: "\<exists>n b. 0 < b \<and> 1 / 2 ^ 40 * real b < 1 \<and> real h * r = real n / real b"
  proof (cases "1920 / real w \<le> 1080 / real h")
    case True
    then have "real h * r = real (h * 1920) / real w" unfolding r_def using w by (simp add: min_def)
    then show ?thesis using wsr w by blast
  next
    case False
    then have "real h * r = real (1080::nat) / real (1::nat)" unfolding r_def using h by (simp add: min_def)
    then show ?thesis using one by blast
  qed
  have fw: "real w * r - 1 \<le> real_of_int \<lfloor>xw\<rfloor> \<and> real_of_int \<lfloor>xw\<rfloor> \<le> real w * r"
  proof -
    obtain n b where b: "0 < b" and e: "1 / 2 ^ 40 * real b < 1" and q: "real w * r = real n / real b"
      using qw by blast
    show ?thesis using floor_of_near_quotient[OF b _ e, of xw n] ew unfolding q by simp
  qed
  have fh: "real h * r - 1 \<le> real_of_int \<lfloor>xh\<rfloor> \<and> real_of_int \<lfloor>xh\<rfloor> \<le> real h * r"
  proof -
    obtain n b where b: "0 < b" and e: "1 / 2 ^ 40 * real b < 1" and q: "real h * r = real n / real b"
      using qh by blast
    show ?thesis using floor_of_near_quotient[OF b _ e, of xh n] eh unfolding q by simp
  qed
  have xw0: "0 \<le> xw"
  proof -
    have "0 \<le> real w * r'" using rr r0 by (simp add: field_simps) 
    then show ?thesis unfolding xw_def using rnd_lower[OF fr, of "real w * r'"] by (simp add: field_simps)
  qed
  have xh0: "0 \<le> xh"
  proof -
    have "0 \<le> real h * r'" using rr r0 by (simp add: field_simps) 
    then show ?thesis unfolding xh_def using rnd_lower[OF fr, of "real h * r'"] by (simp add: field_simps)
  qed
  have pw: "py_int xw = \<lfloor>xw\<rfloor>" and ph: "py_int xh = \<lfloor>xh\<rfloor>"
    using xw0 xh0 by (simp_all add: py_int_def)
  show ?thesis using ns fw fh unfolding pw ph r_def by blast
qed

text \<open>
  The resize step on an image beyond the maxima. When the image is less than 1920 times as
  wide as high and less than 1080 times as high as wide, the step returns an image of at
  least one pixel a side, within 1920 x 1080, whose sides are the exactly proportional
  values rounded down or one less. When the image is more than 1920 times as wide as high,
  or more than 1080 times as high as wide, a computed dimension is 0 and \<open>Image.resize\<close>
  raises.
\<close>

lemma oversized_image_resized:
  assumes fr: "float_rounding rnd"
    and big: "IMAGE_MAX_WIDTH < width img \<or> IMAGE_MAX_HEIGHT < height img"
    and ws: "width img < 2 ^ 40" and hs: "height img < 2 ^ 40"
    and aw: "width img < 1920 * height img" and ah: "height img < 1080 * width img"
  shows "\<exists>img'. resize_if_larger rnd img = Inr img' \<and> mode img' = mode img
           \<and> 1 \<le> width img' \<and> width img' \<le> IMAGE_MAX_WIDTH
           \<and> 1 \<le> height img' \<and> height img' \<le> IMAGE_MAX_HEIGHT
           \<and> real (width img) * min (1920 / real (width img)) (1080 / real (height img)) - 1
                \<le> real (width img')
           \<and> real (width img')
                \<le> real (width img) * min (1920 / real (width img)) (1080 / real (height img))
           \<and> real (height img) * min (1920 / real (width img)) (1080 / real (height img)) - 1
                \<le> real (height img')
           \<and> real (height img')
                \<le> real (height img) * min (1920 / real (width img)) (1080 / real (height img))"
proof -
  define w where "w = width img"
  define h where "h = height img"
  define r where "r = min (1920 / real w) (1080 / real h)"
  have w0: "0 < w" using ah unfolding w_def by (cases "width img") simp_all
  have h0: "0 < h" using aw unfolding h_def by (cases "height img") simp_all
  obtain ow oh where ns: "new_size rnd w h = Inr (ow, oh)"
    and wl: "real w * r - 1 \<le> real_of_int ow" and wu: "real_of_int ow \<le> real w * r"
    and hl: "real h * r - 1 \<le> real_of_int oh" and hu: "real_of_int oh \<le> real h * r"
    using new_size_exact[OF fr w0 h0] ws hs unfolding w_def h_def r_def by blast
  have awr: "real w < 1920 * real h" using aw unfolding w_def h_def
    by (metis of_nat_less_iff of_nat_mult of_nat_numeral)
  have ahr: "real h < 1080 * real w" using ah unfolding w_def h_def
    by (metis of_nat_less_iff of_nat_mult of_nat_numeral)
  have wr: "real w * r = min 1920 (real w * 1080 / real h)"
    unfolding r_def using w0 h0 by (simp add: min_def field_simps)
  have hr: "real h * r = min (real h * 1920 / real w) 1080"
    unfolding r_def using w0 h0 by (simp add: min_def field_simps)
  have w1: "1 < real w * r" unfolding wr using ahr h0 by (simp add: field_simps)
  have h1: "1 < real h * r" unfolding hr using awr w0 by (simp add: field_simps)
  have wm: "real w * r \<le> 1920" unfolding wr by simp
  have hm: "real h * r \<le> 1080" unfolding hr by simp
  have ow1: "1 \<le> ow" using wl w1 by linarith
  have oh1: "1 \<le> oh" using hl h1 by linarith
  have owm: "ow \<le> 1920" using wu wm by linarith
  have ohm: "oh \<le> 1080" using hu hm by linarith
  have rw: "real (nat ow) = real_of_int ow" using ow1 by simp
  have rh: "real (nat oh) = real_of_int oh" using oh1 by simp
  have res: "resize_if_larger rnd img =
     Inr (img\<lparr>width := nat ow, height := nat oh, pix := Lanczos ow oh (pix img)\<rparr>)"
    using big ns ow1 oh1 unfolding w_def h_def
    by (simp add: resize_if_larger_def pil_resize_def)
  have n1: "1 \<le> nat ow" "nat ow \<le> IMAGE_MAX_WIDTH" "1 \<le> nat oh" "nat oh \<le> IMAGE_MAX_HEIGHT"
    using ow1 owm oh1 ohm by (simp_all add: IMAGE_MAX_WIDTH_def IMAGE_MAX_HEIGHT_def)
  show ?thesis
    unfolding res using n1 wl wu hl hu unfolding rw[symmetric] rh[symmetric] r_def w_def h_def
    by simp
qed

lemma thin_image_not_resized:
  assumes fr: "float_rounding rnd"
    and w0: "0 < width img" and h0: "0 < height img"
    and ws: "width img < 2 ^ 40" and hs: "height img < 2 ^ 40"
    and thin: "1920 * height img < width img \<or> 1080 * width img < height img"
  shows "resize_if_larger rnd img = Inl (ValueError ''height and width must be > 0'')"
proof -
  define w where "w = width img"
  define h where "h = height img"
  define r where "r = min (1920 / real w) (1080 / real h)"
  have w0': "0 < w" and h0': "0 < h" using w0 h0 unfolding w_def h_def by simp_all
  obtain ow oh where ns: "new_size rnd w h = Inr (ow, oh)"
    and wu: "real_of_int ow \<le> real w * r" and hu: "real_of_int oh \<le> real h * r"
    using new_size_exact[OF fr w0' h0'] ws hs unfolding w_def h_def r_def by blast
  have big: "IMAGE_MAX_WIDTH < width img \<or> IMAGE_MAX_HEIGHT < height img"
    using thin w0 h0 by (auto simp: IMAGE_MAX_WIDTH_def IMAGE_MAX_HEIGHT_def)
  have wr: "real w * r = min 1920 (real w * 1080 / real h)"
    unfolding r_def using w0' h0' by (simp add: min_def field_simps)
  have hr: "real h * r = min (real h * 1920 / real w) 1080"
    unfolding r_def using w0' h0' by (simp add: min_def field_simps)
  have "ow < 1 \<or> oh < 1"
  proof (cases "1920 * h < w")
    case True
    then have "1920 * real h < real w" by (metis of_nat_less_iff of_nat_mult of_nat_numeral)
    then have "real h * 1920 / real w < 1" using w0' by (simp add: field_simps)
    then have "real h * r < 1" unfolding hr by simp
    then show ?thesis using hu by linarith
  next
    case False
    then have "1080 * w < h" using thin unfolding w_def h_def by simp
    then have "1080 * real w < real h" by (metis of_nat_less_iff of_nat_mult of_nat_numeral)
    then have "real w * 1080 / real h < 1" using h0' by (simp add: field_simps)
    then have "real w * r < 1" unfolding wr by simp
    then show ?thesis using wu by linarith
  qed
  then show ?thesis
    using big ns unfolding w_def h_def by (auto simp: resize_if_larger_def pil_resize_def)
qed



lemma flatten_mode_size [simp]:
  "width (flatten_mode img) = width img" "height (flatten_mode img) = height img"
  by (simp_all add: flatten_mode_def convert_def Let_def)

lemma resize_small:
  "width img \<le> IMAGE_MAX_WIDTH \<Longrightarrow> height img \<le> IMAGE_MAX_HEIGHT \<Longrightarrow> resize_if_larger rnd img = Inr img"
  by (simp add: resize_if_larger_def)

lemma py_int_le:
  assumes "0 \<le> x" "x \<le> real n"
  shows "nat (py_int x) \<le> n"
proof -
  have "\<lfloor>x\<rfloor> \<le> int n" using assms(2) by (simp add: floor_le_iff)
  then show ?thesis using assms(1) by (simp add: py_int_def)
qed

lemma new_size_never_larger:
  assumes fr: "float_rounding rnd" and w: "0 < w" and h: "0 < h"
    and big: "IMAGE_MAX_WIDTH < w \<or> IMAGE_MAX_HEIGHT < h"
    and ns: "new_size rnd w h = Inr (ow, oh)"
  shows "nat ow \<le> w \<and> nat oh \<le> h"
proof -
  define ratio where "ratio = min (rnd (1920 / real w)) (rnd (1080 / real h))"
  have ow: "ow = py_int (rnd (real w * ratio))" and oh: "oh = py_int (rnd (real h * ratio))"
    using ns new_size_Inr[OF w h, of rnd] unfolding ratio_def by simp_all
  have rpos: "0 < ratio"
    unfolding ratio_def using rnd_pos[OF fr, of "1920 / real w"] rnd_pos[OF fr, of "1080 / real h"] w h
    by simp
  have rw: "ratio \<le> rnd (1920 / real w)" and rh: "ratio \<le> rnd (1080 / real h)"
    unfolding ratio_def by simp_all
  have tw0: "0 \<le> real w * ratio" and th0: "0 \<le> real h * ratio" using rpos by simp_all
  have xw0: "0 \<le> rnd (real w * ratio)" and xh0: "0 \<le> rnd (real h * ratio)"
    using rnd_nonneg[OF fr tw0] rnd_nonneg[OF fr th0] by simp_all
  have "rnd (real w * ratio) \<le> real w \<and> rnd (real h * ratio) \<le> real h"
  proof (cases "IMAGE_MAX_WIDTH < w")
    case True
    then have w1: "1921 \<le> real w" by (simp add: IMAGE_MAX_WIDTH_def)
    then have q: "1920 / real w \<le> 1920 / 1921" by (simp add: field_simps)
    have "rnd (real w * ratio) \<le> real w"
      using shrink_bound[OF fr _ _ rw _ q] rpos by simp
    moreover have "rnd (real h * ratio) \<le> real h"
      using shrink_bound[OF fr _ _ rw _ q] rpos by simp
    ultimately show ?thesis by simp
  next
    case False
    with big have "IMAGE_MAX_HEIGHT < h" by simp
    then have h1: "1081 \<le> real h" by (simp add: IMAGE_MAX_HEIGHT_def)
    then have q: "1080 / real h \<le> 1920 / 1921" by (simp add: field_simps)
    have "rnd (real w * ratio) \<le> real w"
      using shrink_bound[OF fr _ _ rh _ q] rpos by simp
    moreover have "rnd (real h * ratio) \<le> real h"
      using shrink_bound[OF fr _ _ rh _ q] rpos by simp
    ultimately show ?thesis by simp
  qed
  then show ?thesis unfolding ow oh using py_int_le xw0 xh0 by simp
qed

lemma resize_never_larger:
  assumes fr: "float_rounding rnd" and r: "resize_if_larger rnd img = Inr img'"
  shows "width img' \<le> width img \<and> height img' \<le> height img"
proof (cases "IMAGE_MAX_WIDTH < width img \<or> IMAGE_MAX_HEIGHT < height img")
  case False
  then show ?thesis using r by (simp add: resize_if_larger_def)
next
  case True
  then obtain sz where ns: "new_size rnd (width img) (height img) = Inr sz"
    and pr: "pil_resize img sz = Inr img'"
    using r by (auto simp: resize_if_larger_def split: sum.splits)
  have w: "0 < width img" and h: "0 < height img"
    using ns by (auto simp: new_size_def fdiv_def split: if_splits sum.splits intro: gr0I)
  obtain ow oh where sz: "sz = (ow, oh)" by (cases sz)
  have "nat ow \<le> width img \<and> nat oh \<le> height img"
    using new_size_never_larger[OF fr w h True] ns sz by simp
  moreover have "width img' = nat ow" "height img' = nat oh"
    using pr sz by (auto simp: pil_resize_def split: if_splits)
  ultimately show ?thesis by simp
qed

text \<open>
  Claim C4. An image whose width and height are both within the maxima (1920 x 1080)
  leaves the mode normalisation and the resize step with the dimensions it came in with,
  and for no image at all does the resize step return a larger width or height.
\<close>

theorem within_bounds_unchanged:
  "(width img \<le> IMAGE_MAX_WIDTH \<and> height img \<le> IMAGE_MAX_HEIGHT \<longrightarrow>
      resize_if_larger rnd (flatten_mode img) = Inr (flatten_mode img)
      \<and> width (flatten_mode img) = width img \<and> height (flatten_mode img) = height img)
   \<and> (float_rounding rnd \<longrightarrow>
        (\<forall>img'. resize_if_larger rnd (flatten_mode img) = Inr img' \<longrightarrow>
                width img' \<le> width img \<and> height img' \<le> height img))"
  using resize_small[of "flatten_mode img" rnd] resize_never_larger[of rnd "flatten_mode img"]
  by simp

lemma new_size_thin:
  "new_size (\<lambda>x. x) 3840 1 = Inr (1920, 0)" "new_size (\<lambda>x. x) 3840 (Suc 0) = Inr (1920, 0)"
  by (simp_all add: new_size_def fdiv_def fmul_def py_int_def IMAGE_MAX_WIDTH_def IMAGE_MAX_HEIGHT_def)

lemma new_size_example: "new_size (\<lambda>x. x) 3000 2000 = Inr (1620, 1080)"
  by (simp add: new_size_def fdiv_def fmul_def py_int_def IMAGE_MAX_WIDTH_def IMAGE_MAX_HEIGHT_def)

lemma ex_big_resized:
  "resize_if_larger (\<lambda>x. x) (flatten_mode ex_big) = Inr (ex_big\<lparr>width := 1620, height := 1080, pix := Lanczos 1620 1080 (Decoded [4, 5])\<rparr>)"
  by (simp add: resize_if_larger_def flatten_mode_def ex_big_def new_size_example pil_resize_def IMAGE_MAX_WIDTH_def)

theorem within_bounds_unchanged_witness:
  "width ex_small \<le> IMAGE_MAX_WIDTH \<and> height ex_small \<le> IMAGE_MAX_HEIGHT
   \<and> resize_if_larger (\<lambda>x. x) (flatten_mode ex_small) = Inr (flatten_mode ex_small)
   \<and> width (flatten_mode ex_small) = 800 \<and> height (flatten_mode ex_small) = 600
   \<and> float_rounding (\<lambda>x. x)
   \<and> (\<exists>img'. resize_if_larger (\<lambda>x. x) (flatten_mode ex_big) = Inr img'
          \<and> width img' \<le> width ex_big \<and> height img' \<le> height ex_big)"
proof -
  have fr: "float_rounding (\<lambda>x. x)" by (simp add: float_rounding_def)
  have sm: "width ex_small \<le> IMAGE_MAX_WIDTH \<and> height ex_small \<le> IMAGE_MAX_HEIGHT"
    by (simp add: ex_small_def IMAGE_MAX_WIDTH_def IMAGE_MAX_HEIGHT_def)
  have a: "resize_if_larger (\<lambda>x. x) (flatten_mode ex_small) = Inr (flatten_mode ex_small)
      \<and> width (flatten_mode ex_small) = width ex_small \<and> height (flatten_mode ex_small) = height ex_small"
    using within_bounds_unchanged[of ex_small "\<lambda>x. x"] sm by blast
  have b: "\<forall>img'. resize_if_larger (\<lambda>x. x) (flatten_mode ex_big) = Inr img' \<longrightarrow>
                width img' \<le> width ex_big \<and> height img' \<le> height ex_big"
    using within_bounds_unchanged[of ex_big "\<lambda>x. x"] fr by blast
  have c: "\<exists>img'. resize_if_larger (\<lambda>x. x) (flatten_mode ex_big) = Inr img'
          \<and> width img' \<le> width ex_big \<and> height img' \<le> height ex_big"
    using b ex_big_resized by blast
  show ?thesis using sm a fr c by (simp add: ex_small_def)
qed

section \<open>Filesystem lemmas\<close>

lemma node_at_put:
  "node_at (put_node fs p n) q = (if q = [] then Some Dir else if q = p then Some n else node_at fs q)"
  by (simp add: node_at_def put_node_def update_conv')

lemma node_at_root [simp]: "node_at fs [] = Some Dir"
  by (simp add: node_at_def)

lemma mkdirs_preserves:
  "mkdirs ro fs cur ds = Inr fs' \<Longrightarrow> node_at fs p = Some n \<Longrightarrow> node_at fs' p = Some n"
proof (induction ds arbitrary: fs cur)
  case Nil
  then show ?case by simp
next
  case (Cons d ds)
  show ?case
  proof (cases "node_at fs (cur @ [d])")
    case None
    with Cons.prems have m: "mkdirs ro (put_node fs (cur @ [d]) Dir) (cur @ [d]) ds = Inr fs'"
      by (simp split: if_splits)
    have "p \<noteq> cur @ [d]" using None Cons.prems(2) by auto
    then have "node_at (put_node fs (cur @ [d]) Dir) p = Some n"
      using Cons.prems(2) by (auto simp: node_at_put)
    from Cons.IH[OF m this] show ?thesis .
  next
    case (Some nd)
    with Cons.prems have "mkdirs ro fs (cur @ [d]) ds = Inr fs'"
      by (cases nd) (simp_all)
    from Cons.IH[OF this Cons.prems(2)] show ?thesis .
  qed
qed

lemma mkdirs_other:
  "mkdirs ro fs cur ds = Inr fs' \<Longrightarrow> \<forall>k. 0 < k \<and> k \<le> length ds \<longrightarrow> p \<noteq> cur @ take k ds
     \<Longrightarrow> node_at fs' p = node_at fs p"
proof (induction ds arbitrary: fs cur)
  case Nil
  then show ?case by simp
next
  case (Cons d ds)
  have p1: "p \<noteq> cur @ [d]" using Cons.prems(2)[rule_format, of 1] by simp
  have rest: "\<forall>k. 0 < k \<and> k \<le> length ds \<longrightarrow> p \<noteq> (cur @ [d]) @ take k ds"
  proof (intro allI impI)
    fix k assume "0 < k \<and> k \<le> length ds"
    then have "p \<noteq> cur @ take (Suc k) (d # ds)" using Cons.prems(2)[rule_format, of "Suc k"] by simp
    then show "p \<noteq> (cur @ [d]) @ take k ds" by simp
  qed
  show ?case
  proof (cases "node_at fs (cur @ [d])")
    case None
    with Cons.prems have m: "mkdirs ro (put_node fs (cur @ [d]) Dir) (cur @ [d]) ds = Inr fs'"
      by (simp split: if_splits)
    have "node_at fs' p = node_at (put_node fs (cur @ [d]) Dir) p" using Cons.IH[OF m rest] .
    also have "\<dots> = node_at fs p" using p1 by (simp add: node_at_put)
    finally show ?thesis .
  next
    case (Some nd)
    with Cons.prems have "mkdirs ro fs (cur @ [d]) ds = Inr fs'"
      by (cases nd) (simp_all)
    from Cons.IH[OF this rest] show ?thesis .
  qed
qed

lemma mkdirs_creates:
  "mkdirs ro fs cur ds = Inr fs' \<Longrightarrow> node_at fs cur = Some Dir \<Longrightarrow> node_at fs' (cur @ ds) = Some Dir"
proof (induction ds arbitrary: fs cur)
  case Nil
  then show ?case by simp
next
  case (Cons d ds)
  show ?case
  proof (cases "node_at fs (cur @ [d])")
    case None
    with Cons.prems have m: "mkdirs ro (put_node fs (cur @ [d]) Dir) (cur @ [d]) ds = Inr fs'"
      by (simp split: if_splits)
    have "node_at (put_node fs (cur @ [d]) Dir) (cur @ [d]) = Some Dir" by (simp add: node_at_put)
    from Cons.IH[OF m this] show ?thesis by simp
  next
    case (Some nd)
    with Cons.prems have nd: "nd = Dir" and m: "mkdirs ro fs (cur @ [d]) ds = Inr fs'"
      by (cases nd; simp)+
    from Cons.IH[OF m] Some nd show ?thesis by simp
  qed
qed

lemma mkdir_parents_dir:
  "mkdir_parents ro fs p = Inr fs' \<Longrightarrow> node_at fs' p = Some Dir"
  using mkdirs_creates[of ro fs "[]" p fs'] by (simp add: mkdir_parents_def node_at_def)

lemma mkdir_parents_preserves:
  "mkdir_parents ro fs p = Inr fs' \<Longrightarrow> node_at fs q = Some n \<Longrightarrow> node_at fs' q = Some n"
  using mkdirs_preserves[of ro fs "[]" p fs' q n] by (simp add: mkdir_parents_def)

lemma mkdir_parents_other:
  "mkdir_parents ro fs p = Inr fs' \<Longrightarrow> \<not> (\<exists>k. q = take k p) \<Longrightarrow> node_at fs' q = node_at fs q"
  using mkdirs_other[of ro fs "[]" p fs' q] by (auto simp: mkdir_parents_def)

lemma not_prefix_of_parent: "q \<noteq> [] \<Longrightarrow> \<not> (\<exists>k. q = take k (parent q))"
proof
  assume q: "q \<noteq> []" and "\<exists>k. q = take k (parent q)"
  then obtain k where k: "q = take k (butlast q)" by (auto simp: parent_def)
  have a: "length (take k (butlast q)) \<le> length q - 1" by simp
  have b: "length q - 1 < length q" using q by (cases q) simp_all
  have "length (take k (butlast q)) < length q" using a b by (rule le_less_trans)
  with k show False by (metis less_irrefl)
qed

lemma mkdir_parent_keeps_target:
  "mkdir_parents ro fs (parent q) = Inr fs' \<Longrightarrow> q \<noteq> [] \<Longrightarrow> node_at fs' q = node_at fs q"
  using mkdir_parents_other[of ro fs "parent q" fs' q] not_prefix_of_parent[of q] by blast


section \<open>Failures of the transcoders\<close>

lemma size_of_file:
  "node_at fs p = Some (File c m) \<Longrightarrow>
     get_file_size_mb env fs p = Inr (fl env (real (length c) / (1024 * 1024)))"
  by (simp add: get_file_size_mb_def st_size_def fdiv_def)

lemma copy2_ok:
  assumes "node_at fs src = Some (File c m)" "src \<noteq> dst" "node_at fs dst \<noteq> Some Dir"
    "node_at fs (parent dst) = Some Dir" "\<not> ro dst"
  shows "copy2 ro fs src dst = Inr (put_node fs dst (File c m))"
  using assms by (auto simp: copy2_def write_file_def split: option.splits node.splits)

lemma fallback_copy_ok:
  assumes src: "node_at fs src = Some (File c m)" and ne: "src \<noteq> dst"
    and nd: "node_at fs dst \<noteq> Some Dir" and pd: "node_at fs (parent dst) = Some Dir"
    and wr: "\<not> read_only env dst"
  shows "fallback_copy env src dst msg res fs =
           (Inr (res\<lparr>error := Some msg,
                     optimized_size_mb := Some (fl env (real (length c) / (1024 * 1024))),
                     reduction_percent := Some 0\<rparr>),
            put_node fs dst (File c m))"
proof -
  have d0: "dst \<noteq> []" using nd by auto
  have at: "node_at (put_node fs dst (File c m)) dst = Some (File c m)"
    using d0 by (simp add: node_at_put)
  show ?thesis
    by (simp add: fallback_copy_def copy2_ok[where ro = "read_only env", OF src ne nd pd wr] size_of_file[OF at])
qed

lemma str_exn_Exception [simp]: "str_exn env (Exception m) = m"
  by (simp add: str_exn_def)

lemma image_failure_core:
  assumes src: "node_at fs source_path = Some (File c m)"
    and ne: "source_path \<noteq> output_path"
    and nd: "node_at fs output_path \<noteq> Some Dir"
    and mk: "mkdir_parents (read_only env) fs (parent output_path) = Inr fs1"
    and wr: "\<not> read_only env output_path"
    and fail: "with_image_block env fs1 source_path output_path = Inl e"
  shows "optimize_image_of b env source_path output_path fs =
           (Inr \<lparr>source = source_path, outpath = output_path,
                 original_size_mb = fl env (real (length c) / (1024 * 1024)),
                 success = False, error = Some (str_exn env e),
                 optimized_size_mb = Some (fl env (real (length c) / (1024 * 1024))),
                 reduction_percent = Some 0, resized = None\<rparr>,
            put_node fs1 output_path (File c m))"
proof -
  have d0: "output_path \<noteq> []" using nd by auto
  have src1: "node_at fs1 source_path = Some (File c m)"
    using mkdir_parents_preserves[OF mk src] .
  have nd1: "node_at fs1 output_path \<noteq> Some Dir"
    using mkdir_parent_keeps_target[OF mk d0] nd by simp
  have pd1: "node_at fs1 (parent output_path) = Some Dir"
    using mkdir_parents_dir[OF mk] .
  show ?thesis
    by (simp add: optimize_image_of_def size_of_file[OF src] image_try_def mk fail
        fallback_copy_ok[OF src1 ne nd1 pd1 wr])
qed

text \<open>
  Claim C2, amended. When the decoding, the resizing or the encoding of an image fails
  (the \<open>with\<close> block ends with an exception \<open>e\<close>), the error is caught and
  \<open>optimize_image\<close> of either script falls back to the copy; when that copy can be made
  (the destination is writable, is not an existing directory and is not the source
  itself) the function returns a result record: the destination path holds the source's
  bytes and metadata, the source is untouched, the record carries \<open>str(e)\<close>,
  \<open>success = False\<close>, \<open>reduction_percent = 0\<close> and a defined \<open>optimized_size_mb\<close>.
  The failing step is reached only after the destination's parent directories were
  created. An exception of the fallback copy itself is not caught.
\<close>

theorem image_failure_falls_back:
  assumes src: "node_at fs source_path = Some (File c m)"
    and ne: "source_path \<noteq> output_path"
    and nd: "node_at fs output_path \<noteq> Some Dir"
    and mk: "mkdir_parents (read_only env) fs (parent output_path) = Inr fs1"
    and wr: "\<not> read_only env output_path"
    and fail: "with_image_block env fs1 source_path output_path = Inl e"
  shows "\<exists>res fs'.
           optimize_image env source_path output_path fs = (Inr res, fs')
         \<and> optimize_image_productos env source_path output_path fs = (Inr (res\<lparr>resized := None\<rparr>), fs')
         \<and> node_at fs' output_path = Some (File c m)
         \<and> node_at fs' source_path = Some (File c m)
         \<and> source res = source_path \<and> outpath res = output_path
         \<and> error res = Some (str_exn env e) \<and> \<not> success res
         \<and> reduction_percent res = Some 0 \<and> optimized_size_mb res \<noteq> None"
proof -
  have d0: "output_path \<noteq> []" using nd by auto
  have src1: "node_at fs1 source_path = Some (File c m)"
    using mkdir_parents_preserves[OF mk src] .
  have "source_path \<noteq> []" using src by auto
  then have "node_at (put_node fs1 output_path (File c m)) source_path = Some (File c m)"
    using src1 ne by (simp add: node_at_put)
  moreover have "node_at (put_node fs1 output_path (File c m)) output_path = Some (File c m)"
    using d0 by (simp add: node_at_put)
  ultimately show ?thesis
    unfolding optimize_image_def optimize_image_productos_def
    by (simp add: image_failure_core[OF src ne nd mk wr fail])
qed

lemma tool_effect_cases:
  "tool_effect env fs p w = fs \<or>
   (\<exists>d. tool_effect env fs p w = put_node fs p (File d (clock env)) \<and> node_at fs p \<noteq> Some Dir)"
  by (auto simp: tool_effect_def write_file_def split: option.splits sum.splits node.splits)

lemma tool_effect_keeps:
  assumes "q \<noteq> p"
  shows "node_at (tool_effect env fs p w) q = node_at fs q"
  using tool_effect_cases[of env fs p w] assms by (auto simp: node_at_put)

lemma tool_effect_no_dir:
  assumes "node_at fs p \<noteq> Some Dir"
  shows "node_at (tool_effect env fs p w) p \<noteq> Some Dir"
  using tool_effect_cases[of env fs p w] assms by (auto simp: node_at_put split: if_splits)

lemma parent_neq: "p \<noteq> [] \<Longrightarrow> parent p \<noteq> p"
proof
  assume p: "p \<noteq> []" and eq: "parent p = p"
  have "length (parent p) = length p - 1" by (simp add: parent_def)
  then have a: "length p = length p - 1" using eq by simp
  have b: "length p - 1 < length p" using p by (cases p) simp_all
  show False using a b by linarith
qed

lemma video_failure_core:
  assumes src: "node_at fs source_path = Some (File c m)"
    and ne: "source_path \<noteq> output_path"
    and nd: "node_at fs output_path \<noteq> Some Dir"
    and mk: "mkdir_parents (read_only env) fs (parent output_path) = Inr fs1"
    and wr: "\<not> read_only env output_path"
    and bad: "tool_failed (run_tool env fs1 (ffmpeg_cmd source_path output_path) 600)"
  shows "\<exists>fs2. optimize_video env source_path output_path fs =
           (Inr \<lparr>source = source_path, outpath = output_path,
                 original_size_mb = fl env (real (length c) / (1024 * 1024)),
                 success = False,
                 error = Some (failure_message env (ffmpeg_cmd source_path output_path) 600
                          (run_tool env fs1 (ffmpeg_cmd source_path output_path) 600)),
                 optimized_size_mb = Some (fl env (real (length c) / (1024 * 1024))),
                 reduction_percent = Some 0, resized = None\<rparr>,
            put_node fs2 output_path (File c m))
          \<and> node_at fs2 source_path = Some (File c m)"
proof -
  define outcome where "outcome = run_tool env fs1 (ffmpeg_cmd source_path output_path) 600"
  have d0: "output_path \<noteq> []" using nd by auto
  have src1: "node_at fs1 source_path = Some (File c m)"
    using mkdir_parents_preserves[OF mk src] .
  have nd1: "node_at fs1 output_path \<noteq> Some Dir"
    using mkdir_parent_keeps_target[OF mk d0] nd by simp
  have pd1: "node_at fs1 (parent output_path) = Some Dir"
    using mkdir_parents_dir[OF mk] .
  have fb: "\<And>w msg res. fallback_copy env source_path output_path msg res (tool_effect env fs1 output_path w) =
           (Inr (res\<lparr>error := Some msg,
                     optimized_size_mb := Some (fl env (real (length c) / (1024 * 1024))),
                     reduction_percent := Some 0\<rparr>),
            put_node (tool_effect env fs1 output_path w) output_path (File c m))"
  proof -
    fix w msg res
    have a: "node_at (tool_effect env fs1 output_path w) source_path = Some (File c m)"
      using tool_effect_keeps[OF ne] src1 by simp
    have b: "node_at (tool_effect env fs1 output_path w) output_path \<noteq> Some Dir"
      using tool_effect_no_dir[OF nd1] .
    have c: "node_at (tool_effect env fs1 output_path w) (parent output_path) = Some Dir"
      using tool_effect_keeps[OF parent_neq[OF d0]] pd1 by simp
    show "fallback_copy env source_path output_path msg res (tool_effect env fs1 output_path w) =
           (Inr (res\<lparr>error := Some msg,
                     optimized_size_mb := Some (fl env (real (length c) / (1024 * 1024))),
                     reduction_percent := Some 0\<rparr>),
            put_node (tool_effect env fs1 output_path w) output_path (File c m))"
      using fallback_copy_ok[OF a ne b c wr] .
  qed
  have keep: "\<And>w. node_at (tool_effect env fs1 output_path w) source_path = Some (File c m)"
    using tool_effect_keeps[OF ne] src1 by simp
  show ?thesis
  proof (cases outcome)
    case ToolMissing
    then have "optimize_video env source_path output_path fs =
       (Inr \<lparr>source = source_path, outpath = output_path,
                 original_size_mb = fl env (real (length c) / (1024 * 1024)),
                 success = False, error = Some ''FFmpeg no encontrado'',
                 optimized_size_mb = Some (fl env (real (length c) / (1024 * 1024))),
                 reduction_percent = Some 0, resized = None\<rparr>,
            put_node fs1 output_path (File c m))"
      using fallback_copy_ok[OF src1 ne nd1 pd1 wr]
      by (simp add: optimize_video_def size_of_file[OF src] video_try_def mk subprocess_run_def
          outcome_def[symmetric])
    then show ?thesis using src1 ToolMissing
      by (auto simp: failure_message_def outcome_def[symmetric])
  next
    case (TimedOut w)
    then have "optimize_video env source_path output_path fs =
       (Inr \<lparr>source = source_path, outpath = output_path,
                 original_size_mb = fl env (real (length c) / (1024 * 1024)),
                 success = False, error = Some (str_exn env (TimeoutExpired (ffmpeg_cmd source_path output_path) 600)),
                 optimized_size_mb = Some (fl env (real (length c) / (1024 * 1024))),
                 reduction_percent = Some 0, resized = None\<rparr>,
            put_node (tool_effect env fs1 output_path w) output_path (File c m))"
      by (simp add: optimize_video_def size_of_file[OF src] video_try_def mk subprocess_run_def
          outcome_def[symmetric] fb)
    then show ?thesis using keep[of w] TimedOut
      by (auto simp: failure_message_def outcome_def[symmetric])
  next
    case (Completed rc err w)
    then have rc: "rc \<noteq> 0" using bad by (simp add: tool_failed_def outcome_def[symmetric])
    have "optimize_video env source_path output_path fs =
       (Inr \<lparr>source = source_path, outpath = output_path,
                 original_size_mb = fl env (real (length c) / (1024 * 1024)),
                 success = False, error = Some (''FFmpeg error: '' @ last_chars 500 err),
                 optimized_size_mb = Some (fl env (real (length c) / (1024 * 1024))),
                 reduction_percent = Some 0, resized = None\<rparr>,
            put_node (tool_effect env fs1 output_path w) output_path (File c m))"
      using Completed rc
      by (simp add: optimize_video_def size_of_file[OF src] video_try_def mk subprocess_run_def
          outcome_def[symmetric] fb)
    then show ?thesis using keep[of w] Completed
      by (auto simp: failure_message_def outcome_def[symmetric])
  qed
qed

lemma last_chars_suffix: "length (last_chars k s) \<le> k \<and> (\<exists>pre. s = pre @ last_chars k s)"
proof -
  have a: "s = take (length s - k) s @ last_chars k s" by (simp add: last_chars_def)
  have b: "length (last_chars k s) \<le> k" by (simp add: last_chars_def)
  show ?thesis using a b by blast
qed

text \<open>
  Claim C3, amended. Whichever way the external transcoder fails (executable missing,
  time limit of 600 seconds passed, non-zero exit code), \<open>optimize_video\<close> falls back to
  the copy; when that copy can be made (destination as in claim C2) the function returns
  a result record: the destination path holds the source's bytes and metadata, the record
  has \<open>success = False\<close>, \<open>reduction_percent = 0\<close>, and its error is
  \<open>FFmpeg no encontrado\<close> for a missing tool, the string of the \<open>TimeoutExpired\<close>
  exception (raised for this command line and 600 seconds) for a timeout, and
  \<open>FFmpeg error:\<close> followed by the last 500 characters of the diagnostic output for a
  non-zero exit. An exception of the fallback copy itself is not caught.
\<close>

theorem video_failure_falls_back:
  assumes src: "node_at fs source_path = Some (File c m)"
    and ne: "source_path \<noteq> output_path"
    and nd: "node_at fs output_path \<noteq> Some Dir"
    and mk: "mkdir_parents (read_only env) fs (parent output_path) = Inr fs1"
    and wr: "\<not> read_only env output_path"
    and bad: "tool_failed (run_tool env fs1 (ffmpeg_cmd source_path output_path) 600)"
  shows "\<exists>res fs'.
           optimize_video env source_path output_path fs = (Inr res, fs')
         \<and> node_at fs' output_path = Some (File c m)
         \<and> node_at fs' source_path = Some (File c m)
         \<and> source res = source_path \<and> outpath res = output_path
         \<and> error res = Some (failure_message env (ffmpeg_cmd source_path output_path) 600
                          (run_tool env fs1 (ffmpeg_cmd source_path output_path) 600))
         \<and> \<not> success res
         \<and> reduction_percent res = Some 0 \<and> optimized_size_mb res \<noteq> None"
proof -
  obtain fs2 where run: "optimize_video env source_path output_path fs =
           (Inr \<lparr>source = source_path, outpath = output_path,
                 original_size_mb = fl env (real (length c) / (1024 * 1024)),
                 success = False,
                 error = Some (failure_message env (ffmpeg_cmd source_path output_path) 600
                          (run_tool env fs1 (ffmpeg_cmd source_path output_path) 600)),
                 optimized_size_mb = Some (fl env (real (length c) / (1024 * 1024))),
                 reduction_percent = Some 0, resized = None\<rparr>,
            put_node fs2 output_path (File c m))"
    and keep: "node_at fs2 source_path = Some (File c m)"
    using video_failure_core[OF src ne nd mk wr bad] by blast
  have d0: "output_path \<noteq> []" using nd by auto
  have s0: "source_path \<noteq> []" using src by auto
  have "node_at (put_node fs2 output_path (File c m)) output_path = Some (File c m)"
    using d0 by (simp add: node_at_put)
  moreover have "node_at (put_node fs2 output_path (File c m)) source_path = Some (File c m)"
    using keep ne s0 by (simp add: node_at_put)
  ultimately show ?thesis using run by simp
qed


section \<open>Suffixes\<close>

lemma suffix_split:
  "\<exists>stem. nm = stem @ suffix_of_name nm \<and> (suffix_of_name nm \<noteq> [] \<longrightarrow> stem \<noteq> [])
          \<and> take (length nm - length (suffix_of_name nm)) nm = stem"
proof (cases "rfind_dot nm")
  case None
  then show ?thesis by (simp add: suffix_of_name_def)
next
  case (Some i)
  show ?thesis
  proof (cases "0 < i \<and> i + 1 < length nm")
    case True
    then have s: "suffix_of_name nm = drop i nm" using Some by (simp add: suffix_of_name_def)
    have "nm = take i nm @ drop i nm" by simp
    moreover have "take i nm \<noteq> []" using True by auto
    moreover have "length nm - length (drop i nm) = i" using True by simp
    ultimately show ?thesis unfolding s by metis
  next
    case False
    then show ?thesis using Some by (simp add: suffix_of_name_def)
  qed
qed

lemma suffix_of_webp:
  assumes "stem \<noteq> []"
  shows "suffix_of_name (stem @ ''.webp'') = ''.webp''"
proof -
  have r: "rfind_dot (stem @ ''.webp'') = Some (length stem)"
    by (simp add: rfind_dot_def Let_def)
  show ?thesis using assms by (simp add: suffix_of_name_def r)
qed

lemma with_suffix_webp:
  assumes "with_suffix p ''.webp'' = Inr q"
  shows "\<exists>stem. stem \<noteq> [] \<and> q = butlast p @ [stem @ ''.webp''] \<and> p \<noteq> []
           \<and> name_of p = stem @ suffix p"
proof -
  have nm: "name_of p \<noteq> []" using assms by (auto simp: with_suffix_def split: if_splits)
  then have p: "p \<noteq> []" by (auto simp: name_of_def)
  obtain stem where st: "name_of p = stem @ suffix p"
    "suffix p \<noteq> [] \<longrightarrow> stem \<noteq> []"
    "take (length (name_of p) - length (suffix p)) (name_of p) = stem"
    using suffix_split[of "name_of p"] unfolding suffix_def by blast
  have ne: "stem \<noteq> []" using st(1,2) nm by (cases "suffix p = []") auto
  have "q = butlast p @ [stem @ ''.webp'']"
  proof (cases "suffix p = []")
    case True
    then have "stem = name_of p" using st(1) by simp
    then show ?thesis using assms nm True by (simp add: with_suffix_def Let_def)
  next
    case False
    then show ?thesis using assms nm st(3) by (simp add: with_suffix_def Let_def)
  qed
  then show ?thesis using ne p st(1) by blast
qed

lemma with_suffix_webp_suffix:
  assumes "with_suffix p ''.webp'' = Inr q"
  shows "suffix q = ''.webp''"
proof -
  obtain stem where "stem \<noteq> []" "q = butlast p @ [stem @ ''.webp'']"
    using with_suffix_webp[OF assms] by blast
  then show ?thesis by (simp add: suffix_def name_of_def suffix_of_webp)
qed

lemma with_suffix_webp_same:
  assumes "with_suffix p ''.webp'' = Inr q"
  shows "q = p \<longleftrightarrow> suffix p = ''.webp''"
proof -
  obtain stem where st: "stem \<noteq> []" "q = butlast p @ [stem @ ''.webp'']" "p \<noteq> []"
    "name_of p = stem @ suffix p"
    using with_suffix_webp[OF assms] by blast
  have "last p = stem @ suffix p" using st(3,4) by (simp add: name_of_def)
  then have p: "p = butlast p @ [stem @ suffix p]"
    using st(3) append_butlast_last_id[of p] by simp
  have "q = p \<longleftrightarrow> butlast p @ [stem @ ''.webp''] = butlast p @ [stem @ suffix p]"
    using st(2) p by metis
  then show ?thesis by auto
qed


section \<open>Successful image transcoding\<close>

lemma mkdirs_file_back:
  "mkdirs ro fs cur ds = Inr fs' \<Longrightarrow> node_at fs' p = Some (File c m) \<Longrightarrow> node_at fs p = Some (File c m)"
proof (induction ds arbitrary: fs cur)
  case Nil
  then show ?case by simp
next
  case (Cons d ds)
  show ?case
  proof (cases "node_at fs (cur @ [d])")
    case None
    with Cons.prems have m: "mkdirs ro (put_node fs (cur @ [d]) Dir) (cur @ [d]) ds = Inr fs'"
      by (simp split: if_splits)
    have "node_at (put_node fs (cur @ [d]) Dir) p = Some (File c m)"
      using Cons.IH[OF m Cons.prems(2)] .
    then show ?thesis by (auto simp: node_at_put split: if_splits)
  next
    case (Some nd)
    with Cons.prems have "mkdirs ro fs (cur @ [d]) ds = Inr fs'"
      by (cases nd) (simp_all)
    from Cons.IH[OF this Cons.prems(2)] show ?thesis .
  qed
qed

lemma mkdir_parents_file_back:
  "mkdir_parents ro fs q = Inr fs' \<Longrightarrow> node_at fs' p = Some (File c m) \<Longrightarrow> node_at fs p = Some (File c m)"
  unfolding mkdir_parents_def by (rule mkdirs_file_back)

lemma fallback_keeps_failure:
  "fallback_copy env s d msg res fs = (Inr r, fs') \<Longrightarrow> success r = success res"
  by (auto simp: fallback_copy_def Let_def split: sum.splits)

lemma image_try_failure_flag:
  "image_try b env s d res fs = (Some e, res', fs') \<Longrightarrow> success res' = success res"
  by (auto simp: image_try_def Let_def split: sum.splits prod.splits if_splits)

lemma image_try_success:
  "image_try b env s d res fs = (None, res', fs') \<Longrightarrow>
     \<exists>fs1 final osz img. mkdir_parents (read_only env) fs (parent d) = Inr fs1
        \<and> with_image_block env fs1 s d = Inr (final, osz, img, fs')
        \<and> outpath res' = final \<and> success res'"
  by (auto simp: image_try_def Let_def split: sum.splits prod.splits if_splits)

lemma optimize_image_success:
  assumes run: "optimize_image_of b env s d fs = (Inr res, fs')" and ok: "success res"
  shows "\<exists>fs1 final osz img. mkdir_parents (read_only env) fs (parent d) = Inr fs1
        \<and> with_image_block env fs1 s d = Inr (final, osz, img, fs')
        \<and> outpath res = final"
proof -
  obtain orig where orig: "get_file_size_mb env fs s = Inr orig"
    using run by (auto simp: optimize_image_of_def split: sum.splits)
  define res0 where "res0 = \<lparr>source = s, outpath = d, original_size_mb = orig,
                       success = False, error = None, optimized_size_mb = None,
                       reduction_percent = None, resized = None\<rparr>"
  obtain x r1 f1 where t: "image_try b env s d res0 fs = (x, r1, f1)"
    by (cases "image_try b env s d res0 fs") auto
  show ?thesis
  proof (cases x)
    case None
    then have "res = r1" "fs' = f1"
      using run orig t by (simp_all add: optimize_image_of_def res0_def[symmetric])
    then show ?thesis using image_try_success[of b env s d res0 fs r1 f1] t None by auto
  next
    case (Some e)
    then have fb: "fallback_copy env s d (str_exn env e) r1 f1 = (Inr res, fs')"
      using run orig t by (simp add: optimize_image_of_def res0_def[symmetric])
    have "success r1 = success res0" using image_try_failure_flag t Some by blast
    then have "\<not> success r1" by (simp add: res0_def)
    then show ?thesis using fallback_keeps_failure[OF fb] ok by simp
  qed
qed

lemma with_image_block_success:
  assumes "with_image_block env fs1 s d = Inr (final, osz, img, fs2)"
  shows "\<exists>c m img0 data. node_at fs1 s = Some (File c m) \<and> decode env c = Inr img0
           \<and> resize_if_larger (fl env) (flatten_mode img0) = Inr img
           \<and> with_suffix d ''.webp'' = Inr final
           \<and> encode env img final (SaveArgs (Some ''WEBP'') IMAGE_QUALITY (Method 6)) = Inr data
           \<and> fs2 = put_node fs1 final (File data (clock env))"
  using assms
  by (auto simp: with_image_block_def open_image_def save_image_def pil_save_def CONVERT_TO_WEBP_def
      Let_def split: sum.splits option.splits node.splits)

text \<open>
  Claim C8. With \<open>CONVERT_TO_WEBP = True\<close>, a call of \<open>optimize_image\<close> (of either
  script) that returns \<open>success = True\<close> has written, at the destination path with its
  suffix replaced by \<open>.webp\<close>, the bytes the encoder produced for the decoded, normalised
  and resized image with format \<open>WEBP\<close>, quality 75 and the encoder setting
  \<open>method=6\<close>; the result's output field is that path, and its suffix is \<open>.webp\<close>.
\<close>

theorem success_writes_webp:
  assumes run: "optimize_image env source_path output_path fs = (Inr res, fs')
              \<or> optimize_image_productos env source_path output_path fs = (Inr res, fs')"
    and ok: "success res"
  shows "\<exists>final c m img0 img data.
           with_suffix output_path ''.webp'' = Inr final
         \<and> outpath res = final \<and> suffix final = ''.webp''
         \<and> node_at fs source_path = Some (File c m) \<and> decode env c = Inr img0
         \<and> resize_if_larger (fl env) (flatten_mode img0) = Inr img
         \<and> encode env img final (SaveArgs (Some ''WEBP'') 75 (Method 6)) = Inr data
         \<and> node_at fs' final = Some (File data (clock env))"
proof -
  obtain b where "optimize_image_of b env source_path output_path fs = (Inr res, fs')"
    using run unfolding optimize_image_def optimize_image_productos_def by blast
  then obtain fs1 final osz img where mk: "mkdir_parents (read_only env) fs (parent output_path) = Inr fs1"
    and wb: "with_image_block env fs1 source_path output_path = Inr (final, osz, img, fs')"
    and op: "outpath res = final"
    using optimize_image_success[OF _ ok] by blast
  obtain c m img0 data where src1: "node_at fs1 source_path = Some (File c m)"
    and dec: "decode env c = Inr img0"
    and rs: "resize_if_larger (fl env) (flatten_mode img0) = Inr img"
    and ws: "with_suffix output_path ''.webp'' = Inr final"
    and enc: "encode env img final (SaveArgs (Some ''WEBP'') IMAGE_QUALITY (Method 6)) = Inr data"
    and fs': "fs' = put_node fs1 final (File data (clock env))"
    using with_image_block_success[OF wb] by blast
  have src: "node_at fs source_path = Some (File c m)"
    using mkdir_parents_file_back[OF mk src1] .
  have "final \<noteq> []" using with_suffix_webp[OF ws] by auto
  then have at: "node_at fs' final = Some (File data (clock env))"
    unfolding fs' by (simp add: node_at_put)
  have enc75: "encode env img final (SaveArgs (Some ''WEBP'') 75 (Method 6)) = Inr data"
    using enc by (simp add: IMAGE_QUALITY_def)
  show ?thesis
    using ws op with_suffix_webp_suffix[OF ws] src dec rs enc75 at by blast
qed

text \<open>
  Claim C10, amended. When the transcoding fails, the fallback copy is written at the
  destination path as given (with the source's own extension) and the result's output
  field names that path, while a successful transcoding of the same file names the path
  with the suffix \<open>.webp\<close>. The two names differ exactly when the file's extension is not
  already \<open>.webp\<close>.
\<close>

theorem failure_keeps_extension:
  assumes good: "optimize_image_of b env_ok source_path output_path fs = (Inr res_ok, fs_ok)"
    and ok: "success res_ok"
    and ne: "source_path \<noteq> output_path"
    and nd: "node_at fs output_path \<noteq> Some Dir"
    and mk: "mkdir_parents (read_only env_bad) fs (parent output_path) = Inr fs1"
    and wr: "\<not> read_only env_bad output_path"
    and fail: "with_image_block env_bad fs1 source_path output_path = Inl e"
  shows "\<exists>res_bad fs_bad c m.
           optimize_image_of b env_bad source_path output_path fs = (Inr res_bad, fs_bad)
         \<and> \<not> success res_bad
         \<and> node_at fs source_path = Some (File c m)
         \<and> node_at fs_bad output_path = Some (File c m)
         \<and> outpath res_bad = output_path
         \<and> with_suffix output_path ''.webp'' = Inr (outpath res_ok)
         \<and> (outpath res_ok = outpath res_bad \<longleftrightarrow> suffix output_path = ''.webp'')"
proof -
  obtain fs1' final osz img where mk': "mkdir_parents (read_only env_ok) fs (parent output_path) = Inr fs1'"
    and wb: "with_image_block env_ok fs1' source_path output_path = Inr (final, osz, img, fs_ok)"
    and op: "outpath res_ok = final"
    using optimize_image_success[OF good ok] by blast
  obtain c m where src1: "node_at fs1' source_path = Some (File c m)"
    and ws: "with_suffix output_path ''.webp'' = Inr final"
    using with_image_block_success[OF wb] by blast
  have src: "node_at fs source_path = Some (File c m)"
    using mkdir_parents_file_back[OF mk' src1] .
  have d0: "output_path \<noteq> []" using nd by auto
  have at: "node_at (put_node fs1 output_path (File c m)) output_path = Some (File c m)"
    using d0 by (simp add: node_at_put)
  show ?thesis
    using image_failure_core[OF src ne nd mk wr fail, of b] at src ws op with_suffix_webp_same[OF ws]
    by auto
qed


section \<open>The loop: one operation per file\<close>

lemma say_trace [simp]: "trace (say w ls) = trace w"
  by (simp add: say_def)

lemma say_fsys [simp]: "fsys (say w ls) = fsys w"
  by (simp add: say_def)

lemma account_trace: "account env res st w = (r, w') \<Longrightarrow> trace w' = trace w"
  by (auto simp: account_def Let_def split: option.splits if_splits)

lemma fallback_source: "fallback_copy env s d msg res fs = (Inr r, fs') \<Longrightarrow> source r = source res"
  by (auto simp: fallback_copy_def Let_def split: sum.splits)

lemma image_try_source: "image_try b env s d res fs = (x, res', fs') \<Longrightarrow> source res' = source res"
  by (auto simp: image_try_def Let_def split: sum.splits prod.splits if_splits)

lemma optimize_image_source:
  "optimize_image_of b env s d fs = (Inr r, fs') \<Longrightarrow> source r = s"
  by (auto simp: optimize_image_of_def Let_def split: sum.splits prod.splits option.splits
      dest!: image_try_source fallback_source)

lemma video_try_source: "video_try env s d res fs = (x, res', fs') \<Longrightarrow> source res' = source res"
  by (auto simp: video_try_def Let_def split: sum.splits prod.splits if_splits)

lemma optimize_video_source:
  "optimize_video env s d fs = (Inr r, fs') \<Longrightarrow> source r = s"
  by (auto simp: optimize_video_def Let_def split: sum.splits prod.splits option.splits exn.splits
      dest!: video_try_source fallback_source)

lemma relative_to_drop: "relative_to f d = Inr rel \<Longrightarrow> rel = drop (length d) f"
  by (auto simp: relative_to_def split: if_splits)

lemma relative_to_append: "relative_to f d = Inr rel \<Longrightarrow> f = d @ rel"
  by (auto simp: relative_to_def split: if_splits) (metis append_take_drop_id)

lemma process_file_trace:
  assumes "process_file env i n f st w = (r, w')"
  shows "\<exists>evs. trace w' = trace w @ evs \<and> length evs \<le> 1
           \<and> list_all (event_fits (SOURCE_DIR env) (OUTPUT_DIR env) f) evs
           \<and> ((\<exists>st'. r = Inr st') \<longrightarrow> length evs = 1)"
proof (cases "relative_to f (SOURCE_DIR env)")
  case (Inl e)
  then show ?thesis using assms by (auto simp: process_file_def)
next
  case (Inr rel)
  note rel = relative_to_drop[OF Inr]
  show ?thesis
  proof (cases "suffix f \<in> set IMAGE_EXTENSIONS")
    case True
    obtain x fs' where o: "optimize_image env f (OUTPUT_DIR env @ rel) (fsys w) = (x, fs')"
      by (cases "optimize_image env f (OUTPUT_DIR env @ rel) (fsys w)") auto
    show ?thesis
    proof (cases x)
      case (Inl e)
      then show ?thesis using assms Inr True o by (auto simp: process_file_def Let_def)
    next
      case (Inr res)
      have src: "source res = f" using o Inr optimize_image_source unfolding optimize_image_def by blast
      obtain y w2 where a: "account env res (images st)
          (say w [Progress i n rel]\<lparr>fsys := fs', trace := trace w @ [ImageResult f (OUTPUT_DIR env @ rel) res]\<rparr>) = (y, w2)"
        by (cases "account env res (images st)
          (say w [Progress i n rel]\<lparr>fsys := fs', trace := trace w @ [ImageResult f (OUTPUT_DIR env @ rel) res]\<rparr>)") auto
      have t2: "trace w2 = trace w @ [ImageResult f (OUTPUT_DIR env @ rel) res]"
        using account_trace[OF a] by simp
      have w': "w' = w2" using assms \<open>relative_to f (SOURCE_DIR env) = Inr rel\<close> True o Inr a
        by (cases y) (auto simp: process_file_def Let_def)
      show ?thesis using t2 w' src True rel by auto
    qed
  next
    case False
    note noimg = False
    show ?thesis
    proof (cases "suffix f \<in> set VIDEO_EXTENSIONS")
      case True
      obtain x fs' where o: "optimize_video env f (OUTPUT_DIR env @ rel) (fsys w) = (x, fs')"
        by (cases "optimize_video env f (OUTPUT_DIR env @ rel) (fsys w)") auto
      show ?thesis
      proof (cases x)
        case (Inl e)
        then show ?thesis using assms Inr True noimg o by (auto simp: process_file_def Let_def)
      next
        case (Inr res)
        have src: "source res = f" using o Inr optimize_video_source by blast
        obtain y w2 where a: "account env res (videos st)
            (say w [Progress i n rel]\<lparr>fsys := fs', trace := trace w @ [VideoResult f (OUTPUT_DIR env @ rel) res]\<rparr>) = (y, w2)"
          by (cases "account env res (videos st)
            (say w [Progress i n rel]\<lparr>fsys := fs', trace := trace w @ [VideoResult f (OUTPUT_DIR env @ rel) res]\<rparr>)") auto
        have t2: "trace w2 = trace w @ [VideoResult f (OUTPUT_DIR env @ rel) res]"
          using account_trace[OF a] by simp
        have w': "w' = w2" using assms \<open>relative_to f (SOURCE_DIR env) = Inr rel\<close> True noimg o Inr a
          by (cases y) (auto simp: process_file_def Let_def)
        show ?thesis using t2 w' src True noimg rel by auto
      qed
    next
      case False
      show ?thesis using assms Inr False noimg rel
        by (auto simp: process_file_def Let_def split: sum.splits)
    qed
  qed
qed

lemma process_files_trace:
  "process_files env i n files st w = (r, w') \<Longrightarrow>
     \<exists>evs. trace w' = trace w @ evs \<and> length evs \<le> length files
        \<and> list_all2 (event_fits (SOURCE_DIR env) (OUTPUT_DIR env)) (take (length evs) files) evs
        \<and> ((\<exists>st'. r = Inr st') \<longrightarrow> length evs = length files)"
proof (induction files arbitrary: i st w)
  case Nil
  then show ?case by auto
next
  case (Cons f rest)
  obtain x w1 where step: "process_file env i n f st w = (x, w1)"
    by (cases "process_file env i n f st w") auto
  obtain e1 where e1: "trace w1 = trace w @ e1" "length e1 \<le> 1"
    "list_all (event_fits (SOURCE_DIR env) (OUTPUT_DIR env) f) e1"
    "(\<exists>st'. x = Inr st') \<longrightarrow> length e1 = 1"
    using process_file_trace[OF step] by blast
  show ?case
  proof (cases x)
    case (Inl e)
    then have "r = Inl e" "w' = w1" using Cons.prems step by simp_all
    moreover have "list_all2 (event_fits (SOURCE_DIR env) (OUTPUT_DIR env)) (take (length e1) (f # rest)) e1"
      using e1(2,3) by (cases e1) auto
    ultimately show ?thesis using e1 by auto
  next
    case (Inr st1)
    then have rec: "process_files env (i + 1) n rest st1 w1 = (r, w')"
      using Cons.prems step by simp
    obtain e2 where e2: "trace w' = trace w1 @ e2" "length e2 \<le> length rest"
      "list_all2 (event_fits (SOURCE_DIR env) (OUTPUT_DIR env)) (take (length e2) rest) e2"
      "(\<exists>st'. r = Inr st') \<longrightarrow> length e2 = length rest"
      using Cons.IH[OF rec] by blast
    obtain ev where ev: "e1 = [ev]" "event_fits (SOURCE_DIR env) (OUTPUT_DIR env) f ev"
      using e1(3,4) Inr by (cases e1) auto
    have "trace w' = trace w @ (ev # e2)" using e1(1) e2(1) ev(1) by simp
    moreover have "list_all2 (event_fits (SOURCE_DIR env) (OUTPUT_DIR env))
                     (take (length (ev # e2)) (f # rest)) (ev # e2)"
      using ev(2) e2(3) by simp
    moreover have "length (ev # e2) \<le> length (f # rest)" using e2(2) by simp
    moreover have "(\<exists>st'. r = Inr st') \<longrightarrow> length (ev # e2) = length (f # rest)"
      using e2(4) by simp
    ultimately show ?thesis by blast
  qed
qed

lemma process_file_productos_trace:
  assumes "process_file_productos env i n f st w = (r, w')" and img: "suffix f \<in> set IMAGE_EXTENSIONS"
  shows "\<exists>evs. trace w' = trace w @ evs \<and> length evs \<le> 1
           \<and> list_all (event_fits (SOURCE_DIR_productos env) (OUTPUT_DIR_productos env) f) evs
           \<and> ((\<exists>st'. r = Inr st') \<longrightarrow> length evs = 1)"
proof (cases "relative_to f (SOURCE_DIR_productos env)")
  case (Inl e)
  then show ?thesis using assms by (auto simp: process_file_productos_def)
next
  case (Inr rel)
  note rel = relative_to_drop[OF Inr]
  obtain x fs' where o: "optimize_image_productos env f (OUTPUT_DIR_productos env @ rel) (fsys w) = (x, fs')"
    by (cases "optimize_image_productos env f (OUTPUT_DIR_productos env @ rel) (fsys w)") auto
  show ?thesis
  proof (cases x)
    case (Inl e)
    then show ?thesis using assms Inr o by (auto simp: process_file_productos_def Let_def)
  next
    case (Inr res)
    have src: "source res = f"
      using o Inr optimize_image_source unfolding optimize_image_productos_def by blast
    have a: "account env res st
          (say w [Progress i n rel]\<lparr>fsys := fs', trace := trace w @ [ImageResult f (OUTPUT_DIR_productos env @ rel) res]\<rparr>) = (r, w')"
      using assms(1) \<open>relative_to f (SOURCE_DIR_productos env) = Inr rel\<close> o Inr
      by (simp add: process_file_productos_def Let_def)
    have t2: "trace w' = trace w @ [ImageResult f (OUTPUT_DIR_productos env @ rel) res]"
      using account_trace[OF a] by simp
    show ?thesis using t2 src img rel by auto
  qed
qed

lemma process_files_productos_trace:
  "process_files_productos env i n files st w = (r, w') \<Longrightarrow>
   \<forall>f\<in>set files. suffix f \<in> set IMAGE_EXTENSIONS \<Longrightarrow>
     \<exists>evs. trace w' = trace w @ evs \<and> length evs \<le> length files
        \<and> list_all2 (event_fits (SOURCE_DIR_productos env) (OUTPUT_DIR_productos env)) (take (length evs) files) evs
        \<and> ((\<exists>st'. r = Inr st') \<longrightarrow> length evs = length files)"
proof (induction files arbitrary: i st w)
  case Nil
  then show ?case by auto
next
  case (Cons f rest)
  have img: "suffix f \<in> set IMAGE_EXTENSIONS" and imgs: "\<forall>f\<in>set rest. suffix f \<in> set IMAGE_EXTENSIONS"
    using Cons.prems(2) by simp_all
  obtain x w1 where step: "process_file_productos env i n f st w = (x, w1)"
    by (cases "process_file_productos env i n f st w") auto
  obtain e1 where e1: "trace w1 = trace w @ e1" "length e1 \<le> 1"
    "list_all (event_fits (SOURCE_DIR_productos env) (OUTPUT_DIR_productos env) f) e1"
    "(\<exists>st'. x = Inr st') \<longrightarrow> length e1 = 1"
    using process_file_productos_trace[OF step img] by blast
  show ?case
  proof (cases x)
    case (Inl e)
    then have "r = Inl e" "w' = w1" using Cons.prems step by simp_all
    moreover have "list_all2 (event_fits (SOURCE_DIR_productos env) (OUTPUT_DIR_productos env)) (take (length e1) (f # rest)) e1"
      using e1(2,3) by (cases e1) auto
    ultimately show ?thesis using e1 by auto
  next
    case (Inr st1)
    then have rec: "process_files_productos env (i + 1) n rest st1 w1 = (r, w')"
      using Cons.prems step by simp
    obtain e2 where e2: "trace w' = trace w1 @ e2" "length e2 \<le> length rest"
      "list_all2 (event_fits (SOURCE_DIR_productos env) (OUTPUT_DIR_productos env)) (take (length e2) rest) e2"
      "(\<exists>st'. r = Inr st') \<longrightarrow> length e2 = length rest"
      using Cons.IH[OF rec imgs] by blast
    obtain ev where ev: "e1 = [ev]" "event_fits (SOURCE_DIR_productos env) (OUTPUT_DIR_productos env) f ev"
      using e1(3,4) Inr by (cases e1) auto
    have "trace w' = trace w @ (ev # e2)" using e1(1) e2(1) ev(1) by simp
    moreover have "list_all2 (event_fits (SOURCE_DIR_productos env) (OUTPUT_DIR_productos env))
                     (take (length (ev # e2)) (f # rest)) (ev # e2)"
      using ev(2) e2(3) by simp
    moreover have "length (ev # e2) \<le> length (f # rest)" using e2(2) by simp
    moreover have "(\<exists>st'. r = Inr st') \<longrightarrow> length (ev # e2) = length (f # rest)"
      using e2(4) by simp
    ultimately show ?thesis by blast
  qed
qed

text \<open>Creating directories does not change which regular files are enumerated.\<close>

lemma update_new_key: "k \<notin> fst ` set al \<Longrightarrow> AList.update k v al = al @ [(k, v)]"
  by (induction al) auto

lemma put_new_dir:
  assumes "node_at fs p = None"
  shows "regular_files (put_node fs p Dir) top_dir = regular_files fs top_dir"
proof -
  have p0: "p \<noteq> []" using assms by (auto simp: node_at_def)
  then have "map_of fs p = None" using assms by (simp add: node_at_def)
  then have notin: "p \<notin> fst ` set fs" by (simp add: map_of_eq_None_iff)
  then have eq: "put_node fs p Dir = fs @ [(p, Dir)]" by (simp add: put_node_def update_new_key)
  have same: "\<And>q. q \<in> fst ` set fs \<Longrightarrow> is_file (fs @ [(p, Dir)]) q = is_file fs q"
  proof -
    fix q assume "q \<in> fst ` set fs"
    then have "q \<noteq> p" using notin by auto
    then have "node_at (put_node fs p Dir) q = node_at fs q" by (simp add: node_at_put)
    then show "is_file (fs @ [(p, Dir)]) q = is_file fs q" unfolding eq is_file_def by simp
  qed
  have np: "\<not> is_file (fs @ [(p, Dir)]) p"
    using node_at_put[of fs p Dir p] p0 unfolding eq is_file_def by simp
  have "filter (is_file (fs @ [(p, Dir)])) (rglob fs top_dir) = filter (is_file fs) (rglob fs top_dir)"
    by (rule filter_cong) (auto simp: rglob_def same)
  then show ?thesis unfolding eq regular_files_def using np by (simp add: rglob_def)
qed

lemma mkdirs_regular_files:
  "mkdirs ro fs cur ds = Inr fs' \<Longrightarrow> regular_files fs' top_dir = regular_files fs top_dir"
proof (induction ds arbitrary: fs cur)
  case Nil
  then show ?case by simp
next
  case (Cons d ds)
  show ?case
  proof (cases "node_at fs (cur @ [d])")
    case None
    with Cons.prems have m: "mkdirs ro (put_node fs (cur @ [d]) Dir) (cur @ [d]) ds = Inr fs'"
      by (simp split: if_splits)
    show ?thesis using Cons.IH[OF m] put_new_dir[OF None] by simp
  next
    case (Some nd)
    with Cons.prems have "mkdirs ro fs (cur @ [d]) ds = Inr fs'"
      by (cases nd) (simp_all)
    from Cons.IH[OF this] show ?thesis .
  qed
qed

lemma mkdir_parents_regular_files:
  "mkdir_parents ro fs p = Inr fs' \<Longrightarrow> regular_files fs' top_dir = regular_files fs top_dir"
  unfolding mkdir_parents_def by (rule mkdirs_regular_files)

lemma files_to_process_regular: "files_to_process env fs = regular_files fs (SOURCE_DIR env)"
  by (simp add: files_to_process_def regular_files_def)

lemma files_to_process_productos_regular:
  "files_to_process_productos env fs =
     filter (\<lambda>f. suffix f \<in> set IMAGE_EXTENSIONS) (regular_files fs (SOURCE_DIR_productos env))"
  by (simp add: files_to_process_productos_def regular_files_def conj_commute)


lemma say_console [simp]: "console (say w ls) = console w @ ls"
  by (simp add: say_def)

lemma main_trace:
  assumes "main env w = (r, w')"
  shows "\<exists>evs. trace w' = trace w @ evs
        \<and> length evs \<le> length (regular_files (fsys w) (SOURCE_DIR env))
        \<and> list_all2 (event_fits (SOURCE_DIR env) (OUTPUT_DIR env))
             (take (length evs) (regular_files (fsys w) (SOURCE_DIR env))) evs
        \<and> ((\<exists>st. r = Inr (Some st)) \<longrightarrow> length evs = length (regular_files (fsys w) (SOURCE_DIR env)))"
proof (cases "path_exists (fsys w) (SOURCE_DIR env)")
  case False
  then have "r = Inr None" "trace w' = trace w" using assms by (auto simp: main_def Let_def)
  then show ?thesis by simp
next
  case True
  show ?thesis
  proof (cases "mkdir_parents (read_only env) (fsys w) (OUTPUT_DIR env)")
    case (Inl e)
    then have "r = Inl e" "trace w' = trace w" using assms True by (auto simp: main_def Let_def)
    then show ?thesis by simp
  next
    case (Inr fs1)
    define files where "files = regular_files (fsys w) (SOURCE_DIR env)"
    have files: "files_to_process env fs1 = files"
      using mkdir_parents_regular_files[OF Inr] by (simp add: files_to_process_regular files_def)
    define w2 where "w2 = say (say w (banner env)\<lparr>fsys := fs1\<rparr>) [Found (length files)]"
    have tw2: "trace w2 = trace w" by (simp add: w2_def)
    obtain x w3 where loop: "process_files env 1 (length files) files
        \<lparr>images = no_stats, videos = no_stats\<rparr> w2 = (x, w3)"
      by (cases "process_files env 1 (length files) files \<lparr>images = no_stats, videos = no_stats\<rparr> w2") auto
    obtain evs where evs: "trace w3 = trace w2 @ evs" "length evs \<le> length files"
      "list_all2 (event_fits (SOURCE_DIR env) (OUTPUT_DIR env)) (take (length evs) files) evs"
      "(\<exists>st'. x = Inr st') \<longrightarrow> length evs = length files"
      using process_files_trace[OF loop] by blast
    have m: "main env w = (case x of Inl e \<Rightarrow> (Inl e, w3)
               | Inr st \<Rightarrow> (case summary env st of Inl e \<Rightarrow> (Inl e, w3) | Inr ls \<Rightarrow> (Inr (Some st), say w3 ls)))"
      using True Inr loop by (simp add: main_def Let_def files w2_def)
    have "trace w' = trace w3" using assms m by (auto split: sum.splits)
    moreover have "(\<exists>st. r = Inr (Some st)) \<longrightarrow> (\<exists>st'. x = Inr st')"
      using assms m by (auto split: sum.splits)
    ultimately show ?thesis using evs tw2 unfolding files_def by auto
  qed
qed

lemma main_productos_trace:
  assumes "main_productos env w = (r, w')"
  shows "\<exists>evs. trace w' = trace w @ evs
        \<and> length evs \<le> length (filter (\<lambda>f. suffix f \<in> set IMAGE_EXTENSIONS) (regular_files (fsys w) (SOURCE_DIR_productos env)))
        \<and> list_all2 (event_fits (SOURCE_DIR_productos env) (OUTPUT_DIR_productos env))
             (take (length evs) (filter (\<lambda>f. suffix f \<in> set IMAGE_EXTENSIONS) (regular_files (fsys w) (SOURCE_DIR_productos env)))) evs
        \<and> ((\<exists>st. r = Inr (Some st)) \<longrightarrow>
              length evs = length (filter (\<lambda>f. suffix f \<in> set IMAGE_EXTENSIONS) (regular_files (fsys w) (SOURCE_DIR_productos env))))"
proof (cases "path_exists (fsys w) (SOURCE_DIR_productos env)")
  case False
  then have "r = Inr None" "trace w' = trace w" using assms by (auto simp: main_productos_def Let_def)
  then show ?thesis by simp
next
  case True
  show ?thesis
  proof (cases "mkdir_parents (read_only env) (fsys w) (OUTPUT_DIR_productos env)")
    case (Inl e)
    then have "r = Inl e" "trace w' = trace w" using assms True by (auto simp: main_productos_def Let_def)
    then show ?thesis by simp
  next
    case (Inr fs1)
    define files where "files = filter (\<lambda>f. suffix f \<in> set IMAGE_EXTENSIONS) (regular_files (fsys w) (SOURCE_DIR_productos env))"
    have files: "files_to_process_productos env fs1 = files"
      using mkdir_parents_regular_files[OF Inr] by (simp add: files_to_process_productos_regular files_def)
    have imgs: "\<forall>f\<in>set files. suffix f \<in> set IMAGE_EXTENSIONS" by (simp add: files_def)
    define w2 where "w2 = say (say w (banner_productos env)\<lparr>fsys := fs1\<rparr>) [Found (length files)]"
    have tw2: "trace w2 = trace w" by (simp add: w2_def)
    obtain x w3 where loop: "process_files_productos env 1 (length files) files no_stats w2 = (x, w3)"
      by (cases "process_files_productos env 1 (length files) files no_stats w2") auto
    obtain evs where evs: "trace w3 = trace w2 @ evs" "length evs \<le> length files"
      "list_all2 (event_fits (SOURCE_DIR_productos env) (OUTPUT_DIR_productos env)) (take (length evs) files) evs"
      "(\<exists>st'. x = Inr st') \<longrightarrow> length evs = length files"
      using process_files_productos_trace[OF loop imgs] by blast
    have m: "main_productos env w = (case x of Inl e \<Rightarrow> (Inl e, w3)
               | Inr st \<Rightarrow> (case summary_productos env st of Inl e \<Rightarrow> (Inl e, w3) | Inr ls \<Rightarrow> (Inr (Some st), say w3 ls)))"
      using True Inr loop by (simp add: main_productos_def Let_def files w2_def)
    have "trace w' = trace w3" using assms m by (auto split: sum.splits)
    moreover have "(\<exists>st. r = Inr (Some st)) \<longrightarrow> (\<exists>st'. x = Inr st')"
      using assms m by (auto split: sum.splits)
    ultimately show ?thesis using evs tw2 unfolding files_def by auto
  qed
qed

text \<open>
  Claim C1, amended. optimize_media.py: the operations a run performs are, in enumeration
  order, exactly one per regular file under the source root (an image result, a video
  result or a verbatim copy to the mirrored path, according to the extension), for all
  the files when the run reaches its end and for an initial part of them when an
  exception ends it. optimize_productos.py: the same holds for the regular files with an
  image extension only; the other files get no operation at all. No file is enumerated
  twice when the filesystem lists no path twice.
\<close>

theorem each_file_handled_once:
  "(\<exists>evs. trace (snd (main env w)) = trace w @ evs
        \<and> list_all2 (event_fits (SOURCE_DIR env) (OUTPUT_DIR env))
             (take (length evs) (regular_files (fsys w) (SOURCE_DIR env))) evs
        \<and> ((\<exists>st. fst (main env w) = Inr (Some st)) \<longrightarrow>
               length evs = length (regular_files (fsys w) (SOURCE_DIR env))))
   \<and> (\<exists>evs. trace (snd (main_productos env w)) = trace w @ evs
        \<and> list_all2 (event_fits (SOURCE_DIR_productos env) (OUTPUT_DIR_productos env))
             (take (length evs)
                (filter (\<lambda>f. suffix f \<in> set IMAGE_EXTENSIONS)
                        (regular_files (fsys w) (SOURCE_DIR_productos env)))) evs
        \<and> ((\<exists>st. fst (main_productos env w) = Inr (Some st)) \<longrightarrow>
               length evs = length (filter (\<lambda>f. suffix f \<in> set IMAGE_EXTENSIONS)
                                     (regular_files (fsys w) (SOURCE_DIR_productos env)))))
   \<and> (distinct (map fst (fsys w)) \<longrightarrow>
        distinct (regular_files (fsys w) (SOURCE_DIR env))
        \<and> distinct (regular_files (fsys w) (SOURCE_DIR_productos env)))"
proof -
  have a: "main env w = (fst (main env w), snd (main env w))" by simp
  have b: "main_productos env w = (fst (main_productos env w), snd (main_productos env w))" by simp
  have c: "distinct (map fst (fsys w)) \<longrightarrow>
        distinct (regular_files (fsys w) (SOURCE_DIR env))
        \<and> distinct (regular_files (fsys w) (SOURCE_DIR_productos env))"
    by (simp add: regular_files_def rglob_def)
  show ?thesis using main_trace[OF a] main_productos_trace[OF b] c by blast
qed


section \<open>Pass-through copies and the missing source directory\<close>

lemma source_output_differ: "SOURCE_DIR env @ rel \<noteq> OUTPUT_DIR env @ rel"
  by (simp add: SOURCE_DIR_def OUTPUT_DIR_def)

text \<open>
  Claim C6, amended. optimize_media.py: for a regular file whose extension is neither an
  image nor a video extension, the loop body creates the destination's parent
  directories, copies the file with its bytes and metadata to the mirrored path, prints
  the copy line, and returns the statistics unchanged (the destination is writable and
  not an existing directory, and its parents can be created; an error of these steps is
  not caught). optimize_productos.py: a file without an image extension is not among the
  files to process, so it is not copied. Which branch the loop body takes is decided by
  membership tests on \<open>suffix source_file\<close> alone.
\<close>

theorem unknown_extension_is_copied:
  assumes noimg: "suffix f \<notin> set IMAGE_EXTENSIONS"
  shows "f \<notin> set (files_to_process_productos env fs0)
       \<and> (suffix f \<notin> set VIDEO_EXTENSIONS
            \<and> relative_to f (SOURCE_DIR env) = Inr rel
            \<and> node_at (fsys w) f = Some (File c m)
            \<and> node_at (fsys w) (OUTPUT_DIR env @ rel) \<noteq> Some Dir
            \<and> mkdir_parents (read_only env) (fsys w) (parent (OUTPUT_DIR env @ rel)) = Inr fs1
            \<and> \<not> read_only env (OUTPUT_DIR env @ rel)
          \<longrightarrow> (\<exists>w'. process_file env i n f st w = (Inr st, w')
                 \<and> fsys w' = put_node fs1 (OUTPUT_DIR env @ rel) (File c m)
                 \<and> node_at (fsys w') (parent (OUTPUT_DIR env @ rel)) = Some Dir
                 \<and> node_at (fsys w') (OUTPUT_DIR env @ rel) = Some (File c m)
                 \<and> node_at (fsys w') f = Some (File c m)
                 \<and> trace w' = trace w @ [Copied f (OUTPUT_DIR env @ rel)]
                 \<and> console w' = console w @ [Progress i n rel, CopiedUnchanged]))"
proof (intro conjI impI)
  show "f \<notin> set (files_to_process_productos env fs0)"
    using noimg by (simp add: files_to_process_productos_def)
next
  assume h: "suffix f \<notin> set VIDEO_EXTENSIONS
            \<and> relative_to f (SOURCE_DIR env) = Inr rel
            \<and> node_at (fsys w) f = Some (File c m)
            \<and> node_at (fsys w) (OUTPUT_DIR env @ rel) \<noteq> Some Dir
            \<and> mkdir_parents (read_only env) (fsys w) (parent (OUTPUT_DIR env @ rel)) = Inr fs1
            \<and> \<not> read_only env (OUTPUT_DIR env @ rel)"
  define out where "out = OUTPUT_DIR env @ rel"
  have novid: "suffix f \<notin> set VIDEO_EXTENSIONS" and rel: "relative_to f (SOURCE_DIR env) = Inr rel"
    and src: "node_at (fsys w) f = Some (File c m)" and nd: "node_at (fsys w) out \<noteq> Some Dir"
    and mk: "mkdir_parents (read_only env) (fsys w) (parent out) = Inr fs1"
    and wr: "\<not> read_only env out"
    using h by (simp_all add: out_def)
  have f: "f = SOURCE_DIR env @ rel" using relative_to_append[OF rel] .
  have ne: "f \<noteq> out" unfolding f out_def by (rule source_output_differ)
  have d0: "out \<noteq> []" using nd by auto
  have f0: "f \<noteq> []" using src by auto
  have src1: "node_at fs1 f = Some (File c m)" using mkdir_parents_preserves[OF mk src] .
  have nd1: "node_at fs1 out \<noteq> Some Dir" using mkdir_parent_keeps_target[OF mk d0] nd by simp
  have pd1: "node_at fs1 (parent out) = Some Dir" using mkdir_parents_dir[OF mk] .
  have cp: "copy2 (read_only env) fs1 f out = Inr (put_node fs1 out (File c m))"
    using copy2_ok[where ro = "read_only env", OF src1 ne nd1 pd1 wr] .
  define w' where "w' = say (say w [Progress i n rel]\<lparr>fsys := put_node fs1 out (File c m),
        trace := trace w @ [Copied f out]\<rparr>) [CopiedUnchanged]"
  have run: "process_file env i n f st w = (Inr st, w')"
    using noimg novid rel mk cp by (simp add: process_file_def Let_def out_def[symmetric] w'_def)
  have "node_at (put_node fs1 out (File c m)) (parent out) = Some Dir"
    using pd1 parent_neq[OF d0] by (simp add: node_at_put)
  moreover have "node_at (put_node fs1 out (File c m)) out = Some (File c m)"
    using d0 by (simp add: node_at_put)
  moreover have "node_at (put_node fs1 out (File c m)) f = Some (File c m)"
    using src1 ne f0 by (simp add: node_at_put)
  ultimately show "\<exists>w'. process_file env i n f st w = (Inr st, w')
                 \<and> fsys w' = put_node fs1 (OUTPUT_DIR env @ rel) (File c m)
                 \<and> node_at (fsys w') (parent (OUTPUT_DIR env @ rel)) = Some Dir
                 \<and> node_at (fsys w') (OUTPUT_DIR env @ rel) = Some (File c m)
                 \<and> node_at (fsys w') f = Some (File c m)
                 \<and> trace w' = trace w @ [Copied f (OUTPUT_DIR env @ rel)]
                 \<and> console w' = console w @ [Progress i n rel, CopiedUnchanged]"
    using run unfolding out_def[symmetric] by (intro exI[of _ w']) (simp add: w'_def)
qed

lemma main_completed_console:
  assumes "main env w = (Inr (Some st), w')"
  shows "\<exists>pre ls. summary env st = Inr ls \<and> console w' = pre @ ls"
  using assms
  by (auto simp: main_def Let_def split: if_splits sum.splits prod.splits)

lemma main_productos_completed_console:
  assumes "main_productos env w = (Inr (Some st), w')"
  shows "\<exists>pre ls. summary_productos env st = Inr ls \<and> console w' = pre @ ls"
  using assms
  by (auto simp: main_productos_def Let_def split: if_splits sum.splits prod.splits)

lemma main_early_iff:
  "fst (main env w) = Inr None \<longleftrightarrow> \<not> path_exists (fsys w) (SOURCE_DIR env)"
  by (auto simp: main_def Let_def split: if_splits sum.splits prod.splits)

lemma main_productos_early_iff:
  "fst (main_productos env w) = Inr None \<longleftrightarrow> \<not> path_exists (fsys w) (SOURCE_DIR_productos env)"
  by (auto simp: main_productos_def Let_def split: if_splits sum.splits prod.splits)

text \<open>
  Claim C7. When the source directory does not exist, \<open>main\<close> of either script prints
  its banner and the error line and returns: the filesystem and the trace are as before,
  and no summary is printed. This is the only early return: \<open>main\<close> returns early
  exactly when the source directory is missing, and a run that returns otherwise ends
  with the printed summary.
\<close>

theorem missing_source_aborts:
  "(\<not> path_exists (fsys w) (SOURCE_DIR env) \<longrightarrow>
      main env w = (Inr None, w\<lparr>console := console w @ banner env @ [MissingSource (SOURCE_DIR env)]\<rparr>))
   \<and> (\<not> path_exists (fsys w) (SOURCE_DIR_productos env) \<longrightarrow>
      main_productos env w =
        (Inr None, w\<lparr>console := console w @ banner_productos env
                                 @ [MissingSource (SOURCE_DIR_productos env)]\<rparr>))
   \<and> SummaryTitle \<notin> set (banner env) \<and> SummaryTitle \<notin> set (banner_productos env)
   \<and> (fst (main env w) = Inr None \<longleftrightarrow> \<not> path_exists (fsys w) (SOURCE_DIR env))
   \<and> (fst (main_productos env w) = Inr None \<longleftrightarrow> \<not> path_exists (fsys w) (SOURCE_DIR_productos env))
   \<and> (\<forall>st. fst (main env w) = Inr (Some st) \<longrightarrow>
         (\<exists>pre ls. summary env st = Inr ls \<and> console (snd (main env w)) = pre @ ls))
   \<and> (\<forall>st. fst (main_productos env w) = Inr (Some st) \<longrightarrow>
         (\<exists>pre ls. summary_productos env st = Inr ls \<and> console (snd (main_productos env w)) = pre @ ls))"
proof -
  have a: "\<not> path_exists (fsys w) (SOURCE_DIR env) \<longrightarrow>
      main env w = (Inr None, w\<lparr>console := console w @ banner env @ [MissingSource (SOURCE_DIR env)]\<rparr>)"
    by (simp add: main_def say_def Let_def)
  have b: "\<not> path_exists (fsys w) (SOURCE_DIR_productos env) \<longrightarrow>
      main_productos env w =
        (Inr None, w\<lparr>console := console w @ banner_productos env
                                 @ [MissingSource (SOURCE_DIR_productos env)]\<rparr>)"
    by (simp add: main_productos_def say_def Let_def)
  have c: "SummaryTitle \<notin> set (banner env) \<and> SummaryTitle \<notin> set (banner_productos env)"
    by (simp add: banner_def banner_productos_def)
  have d: "\<forall>st. fst (main env w) = Inr (Some st) \<longrightarrow>
         (\<exists>pre ls. summary env st = Inr ls \<and> console (snd (main env w)) = pre @ ls)"
    using main_completed_console[of env w _ "snd (main env w)"]
    by (metis prod.collapse)
  have e: "\<forall>st. fst (main_productos env w) = Inr (Some st) \<longrightarrow>
         (\<exists>pre ls. summary_productos env st = Inr ls \<and> console (snd (main_productos env w)) = pre @ ls)"
    using main_productos_completed_console[of env w _ "snd (main_productos env w)"]
    by (metis prod.collapse)
  show ?thesis using a b c d e main_early_iff main_productos_early_iff by blast
qed


section \<open>The summary\<close>






























section \<open>The theorems at concrete inputs\<close>

lemmas fs_eval = node_at_def put_node_def mkdir_parents_def parent_def name_of_def
  write_file_def copy2_def st_size_def get_file_size_mb_def fdiv_def fmul_def fsub_def fadd_def
  open_image_def pil_save_def

lemmas path_eval = suffix_def suffix_of_name_def rfind_dot_def with_suffix_def name_of_def

lemmas ex_paths = ex_foto_def ex_foto_out_def ex_clip_def ex_clip_out_def ex_notas_def
  ex_notas_out_def ex_logo_def ex_logo_out_def

lemmas run_eval = main_def process_file_def account_def say_def summary_def category_summary_def
  reduction_lines_def error_lines_def total_lines_def banner_def files_to_process_def rglob_def is_file_def
  path_exists_def SOURCE_DIR_def OUTPUT_DIR_def no_stats_def relative_to_def
  optimize_image_def optimize_image_of_def image_try_def with_image_block_def save_image_def
  fallback_copy_def optimize_video_def video_try_def subprocess_run_def tool_effect_def
  CONVERT_TO_WEBP_def IMAGE_EXTENSIONS_def VIDEO_EXTENSIONS_def IMAGE_QUALITY_def
  IMAGE_MAX_WIDTH_def IMAGE_MAX_HEIGHT_def VIDEO_CRF_def VIDEO_MAX_HEIGHT_def VIDEO_AUDIO_BITRATE_def
  main_productos_def process_file_productos_def summary_productos_def banner_productos_def
  files_to_process_productos_def SOURCE_DIR_productos_def OUTPUT_DIR_productos_def
  optimize_image_productos_def regular_files_def

lemma identity_rounding: "float_rounding (\<lambda>x. x)"
  by (simp add: float_rounding_def)

lemma ex_resized:
  "resize_if_larger (\<lambda>x. x) (flatten_mode \<lparr>mode = ''RGB'', width = 3000, height = 2000, pix = Decoded b\<rparr>) =
   Inr \<lparr>mode = ''RGB'', width = 1620, height = 1080, pix = Lanczos 1620 1080 (Decoded b)\<rparr>"
  by (simp add: resize_if_larger_def flatten_mode_def new_size_example pil_resize_def IMAGE_MAX_WIDTH_def)

lemma ex_ok_writable: "read_only ex_env_ok = (\<lambda>p. False)"
  by (simp add: ex_env_ok_def)

lemma ex_mk: "mkdir_parents (\<lambda>p. False) ex_fs [''srv'', ''ServiciosOptimized''] = Inr ex_fs1"
  by (simp add: ex_fs_def ex_fs1_def fs_eval)

lemma ex_foto_fails:
  "with_image_block ex_env_bad ex_fs1 ex_foto ex_foto_out = Inl (Exception ''cannot identify image file'')"
  by (simp add: with_image_block_def ex_env_bad_def ex_fs_def ex_fs1_def ex_paths fs_eval)

theorem image_failure_falls_back_witness:
  "node_at ex_fs ex_foto = Some (File [1, 2, 3] 10) \<and> ex_foto \<noteq> ex_foto_out
   \<and> node_at ex_fs ex_foto_out \<noteq> Some Dir
   \<and> mkdir_parents (read_only ex_env_bad) ex_fs (parent ex_foto_out) = Inr ex_fs1
   \<and> \<not> read_only ex_env_bad ex_foto_out
   \<and> with_image_block ex_env_bad ex_fs1 ex_foto ex_foto_out = Inl (Exception ''cannot identify image file'')
   \<and> (\<exists>res fs'.
           optimize_image ex_env_bad ex_foto ex_foto_out ex_fs = (Inr res, fs')
         \<and> optimize_image_productos ex_env_bad ex_foto ex_foto_out ex_fs = (Inr (res\<lparr>resized := None\<rparr>), fs')
         \<and> node_at fs' ex_foto_out = Some (File [1, 2, 3] 10)
         \<and> node_at fs' ex_foto = Some (File [1, 2, 3] 10)
         \<and> source res = ex_foto \<and> outpath res = ex_foto_out
         \<and> error res = Some ''cannot identify image file'' \<and> \<not> success res
         \<and> reduction_percent res = Some 0 \<and> optimized_size_mb res \<noteq> None)"
proof -
  have src: "node_at ex_fs ex_foto = Some (File [1, 2, 3] 10)"
    by (simp add: ex_fs_def ex_paths node_at_def)
  have ne: "ex_foto \<noteq> ex_foto_out" by (simp add: ex_paths)
  have nd: "node_at ex_fs ex_foto_out \<noteq> Some Dir" by (simp add: ex_fs_def ex_paths node_at_def)
  have mk: "mkdir_parents (read_only ex_env_bad) ex_fs (parent ex_foto_out) = Inr ex_fs1"
    using ex_mk by (simp add: ex_paths parent_def ex_env_bad_def)
  have wr: "\<not> read_only ex_env_bad ex_foto_out" by (simp add: ex_env_bad_def)
  show ?thesis
    using src ne nd mk wr ex_foto_fails image_failure_falls_back[OF src ne nd mk wr ex_foto_fails]
    by simp
qed

text \<open>
  Claim C2 as stated fails where the destination cannot be written. The output directory
  exists and nothing can be written below it: the decoding error is caught, and the
  \<open>PermissionError\<close> of the fallback copy leaves \<open>optimize_image\<close>, which returns no
  result record.
\<close>

theorem image_fallback_can_raise:
  "mkdir_parents (read_only ex_env_locked) ex_fs1 (parent ex_foto_out) = Inr ex_fs1
   \<and> with_image_block ex_env_locked ex_fs1 ex_foto ex_foto_out
     = Inl (Exception ''cannot identify image file'')
   \<and> optimize_image ex_env_locked ex_foto ex_foto_out ex_fs1 = (Inl (PermissionError ex_foto_out), ex_fs1)
   \<and> optimize_image_productos ex_env_locked ex_foto ex_foto_out ex_fs1 = (Inl (PermissionError ex_foto_out), ex_fs1)"
  by (simp add: run_eval fs_eval ex_paths ex_fs_def ex_fs1_def ex_env_locked_def ex_env_bad_def Let_def)

lemma ex_tool_missing: "tool_failed (run_tool ex_env_bad ex_fs1 (ffmpeg_cmd ex_clip ex_clip_out) 600)"
  by (simp add: tool_failed_def ex_env_bad_def)

theorem video_failure_falls_back_witness:
  "node_at ex_fs ex_clip = Some (File [4, 5] 11) \<and> ex_clip \<noteq> ex_clip_out
   \<and> node_at ex_fs ex_clip_out \<noteq> Some Dir
   \<and> mkdir_parents (read_only ex_env_bad) ex_fs (parent ex_clip_out) = Inr ex_fs1
   \<and> \<not> read_only ex_env_bad ex_clip_out
   \<and> tool_failed (run_tool ex_env_bad ex_fs1 (ffmpeg_cmd ex_clip ex_clip_out) 600)
   \<and> (\<exists>res fs'.
           optimize_video ex_env_bad ex_clip ex_clip_out ex_fs = (Inr res, fs')
         \<and> node_at fs' ex_clip_out = Some (File [4, 5] 11)
         \<and> node_at fs' ex_clip = Some (File [4, 5] 11)
         \<and> source res = ex_clip \<and> outpath res = ex_clip_out
         \<and> error res = Some ''FFmpeg no encontrado'' \<and> \<not> success res
         \<and> reduction_percent res = Some 0 \<and> optimized_size_mb res \<noteq> None)"
proof -
  have src: "node_at ex_fs ex_clip = Some (File [4, 5] 11)"
    by (simp add: ex_fs_def ex_paths node_at_def)
  have ne: "ex_clip \<noteq> ex_clip_out" by (simp add: ex_paths)
  have nd: "node_at ex_fs ex_clip_out \<noteq> Some Dir" by (simp add: ex_fs_def ex_paths node_at_def)
  have mk: "mkdir_parents (read_only ex_env_bad) ex_fs (parent ex_clip_out) = Inr ex_fs1"
    using ex_mk by (simp add: ex_paths parent_def ex_env_bad_def)
  have msg: "failure_message ex_env_bad (ffmpeg_cmd ex_clip ex_clip_out) 600
                (run_tool ex_env_bad ex_fs1 (ffmpeg_cmd ex_clip ex_clip_out) 600)
               = ''FFmpeg no encontrado''"
    by (simp add: failure_message_def ex_env_bad_def)
  have wr: "\<not> read_only ex_env_bad ex_clip_out" by (simp add: ex_env_bad_def)
  show ?thesis
    using src ne nd mk wr ex_tool_missing
      video_failure_falls_back[OF src ne nd mk wr ex_tool_missing]
    by (simp add: msg)
qed

text \<open>
  Claim C3 as stated fails in the same way: the output directory exists and cannot be
  written, the external tool is missing, and the \<open>PermissionError\<close> of the handler's copy
  leaves \<open>optimize_video\<close>.
\<close>

theorem video_fallback_can_raise:
  "mkdir_parents (read_only ex_env_locked) ex_fs1 (parent ex_clip_out) = Inr ex_fs1
   \<and> tool_failed (run_tool ex_env_locked ex_fs1 (ffmpeg_cmd ex_clip ex_clip_out) 600)
   \<and> optimize_video ex_env_locked ex_clip ex_clip_out ex_fs1
       = (Inl (PermissionError ex_clip_out), ex_fs1)"
  by (simp add: tool_failed_def run_eval fs_eval ex_paths ex_fs_def ex_fs1_def ex_env_locked_def
      ex_env_bad_def Let_def)

lemma ex_foto_ok:
  "optimize_image ex_env_ok ex_foto ex_foto_out ex_fs =
     (Inr \<lparr>source = ex_foto, outpath = [''srv'', ''ServiciosOptimized'', ''foto.webp''],
           original_size_mb = 3 / 1048576, success = True, error = None,
           optimized_size_mb = Some (1 / 1048576), reduction_percent = Some (200 / 3),
           resized = Some True\<rparr>,
      ex_fs1 @ [([''srv'', ''ServiciosOptimized'', ''foto.webp''], File [7] 99)])"
  by (simp add: run_eval fs_eval path_eval ex_paths ex_fs_def ex_fs1_def ex_env_ok_def ex_resized Let_def)

theorem success_writes_webp_witness:
  "optimize_image ex_env_ok ex_foto ex_foto_out ex_fs =
     (Inr \<lparr>source = ex_foto, outpath = [''srv'', ''ServiciosOptimized'', ''foto.webp''],
           original_size_mb = 3 / 1048576, success = True, error = None,
           optimized_size_mb = Some (1 / 1048576), reduction_percent = Some (200 / 3),
           resized = Some True\<rparr>,
      ex_fs1 @ [([''srv'', ''ServiciosOptimized'', ''foto.webp''], File [7] 99)])
   \<and> (\<exists>c m img0 img data.
           with_suffix ex_foto_out ''.webp'' = Inr [''srv'', ''ServiciosOptimized'', ''foto.webp'']
         \<and> suffix [''srv'', ''ServiciosOptimized'', ''foto.webp''] = ''.webp''
         \<and> node_at ex_fs ex_foto = Some (File c m) \<and> decode ex_env_ok c = Inr img0
         \<and> resize_if_larger (fl ex_env_ok) (flatten_mode img0) = Inr img
         \<and> encode ex_env_ok img [''srv'', ''ServiciosOptimized'', ''foto.webp'']
              (SaveArgs (Some ''WEBP'') 75 (Method 6)) = Inr data
         \<and> node_at (ex_fs1 @ [([''srv'', ''ServiciosOptimized'', ''foto.webp''], File [7] 99)])
              [''srv'', ''ServiciosOptimized'', ''foto.webp''] = Some (File data (clock ex_env_ok)))"
proof -
  have ok: "success \<lparr>source = ex_foto, outpath = [''srv'', ''ServiciosOptimized'', ''foto.webp''],
           original_size_mb = 3 / 1048576, success = True, error = None,
           optimized_size_mb = Some (1 / 1048576), reduction_percent = Some (200 / 3),
           resized = Some True\<rparr>" by simp
  show ?thesis
    using ex_foto_ok success_writes_webp[OF disjI1[OF ex_foto_ok] ok] by auto
qed

lemma ex_foto_ok_of:
  "optimize_image_of True ex_env_ok ex_foto ex_foto_out ex_fs =
     (Inr \<lparr>source = ex_foto, outpath = [''srv'', ''ServiciosOptimized'', ''foto.webp''],
           original_size_mb = 3 / 1048576, success = True, error = None,
           optimized_size_mb = Some (1 / 1048576), reduction_percent = Some (200 / 3),
           resized = Some True\<rparr>,
      ex_fs1 @ [([''srv'', ''ServiciosOptimized'', ''foto.webp''], File [7] 99)])"
  using ex_foto_ok by (simp add: optimize_image_def)

theorem failure_keeps_extension_witness:
  "ex_foto \<noteq> ex_foto_out \<and> node_at ex_fs ex_foto_out \<noteq> Some Dir
   \<and> mkdir_parents (read_only ex_env_bad) ex_fs (parent ex_foto_out) = Inr ex_fs1
   \<and> \<not> read_only ex_env_bad ex_foto_out
   \<and> with_image_block ex_env_bad ex_fs1 ex_foto ex_foto_out = Inl (Exception ''cannot identify image file'')
   \<and> outcome_of (optimize_image_of True ex_env_ok ex_foto ex_foto_out ex_fs)
        = Inr (True, [''srv'', ''ServiciosOptimized'', ''foto.webp''])
   \<and> (\<exists>res_bad fs_bad c m.
           optimize_image_of True ex_env_bad ex_foto ex_foto_out ex_fs = (Inr res_bad, fs_bad)
         \<and> \<not> success res_bad
         \<and> node_at ex_fs ex_foto = Some (File c m)
         \<and> node_at fs_bad ex_foto_out = Some (File c m)
         \<and> outpath res_bad = ex_foto_out
         \<and> [''srv'', ''ServiciosOptimized'', ''foto.webp''] \<noteq> outpath res_bad
         \<and> suffix ex_foto_out = ''.jpg'')"
proof -
  have ne: "ex_foto \<noteq> ex_foto_out" by (simp add: ex_paths)
  have nd: "node_at ex_fs ex_foto_out \<noteq> Some Dir" by (simp add: ex_fs_def ex_paths node_at_def)
  have mk: "mkdir_parents (read_only ex_env_bad) ex_fs (parent ex_foto_out) = Inr ex_fs1"
    using ex_mk by (simp add: ex_paths parent_def ex_env_bad_def)
  have ok: "success \<lparr>source = ex_foto, outpath = [''srv'', ''ServiciosOptimized'', ''foto.webp''],
           original_size_mb = 3 / 1048576, success = True, error = None,
           optimized_size_mb = Some (1 / 1048576), reduction_percent = Some (200 / 3),
           resized = Some True\<rparr>" by simp
  have sfx: "suffix ex_foto_out = ''.jpg''" by (simp add: path_eval ex_paths)
  have oc: "outcome_of (optimize_image_of True ex_env_ok ex_foto ex_foto_out ex_fs)
        = Inr (True, [''srv'', ''ServiciosOptimized'', ''foto.webp''])"
    by (simp add: outcome_of_def ex_foto_ok_of)
  have wr: "\<not> read_only ex_env_bad ex_foto_out" by (simp add: ex_env_bad_def)
  show ?thesis
    using ne nd mk wr ex_foto_fails oc sfx
      failure_keeps_extension[OF ex_foto_ok_of ok ne nd mk wr ex_foto_fails]
    by auto
qed

text \<open>
  Claim C10 as stated fails for a source that already has the extension \<open>.webp\<close>: the
  successful transcoding and the fallback copy of \<open>logo.webp\<close> name the same file.
\<close>

theorem webp_source_keeps_its_name:
  "suffix ex_logo_out = ''.webp''
   \<and> outcome_of (optimize_image ex_env_ok ex_logo ex_logo_out ex_fs) = Inr (True, ex_logo_out)
   \<and> outcome_of (optimize_image ex_env_bad ex_logo ex_logo_out ex_fs) = Inr (False, ex_logo_out)
   \<and> outcome_of (optimize_image_productos ex_env_ok ex_logo ex_logo_out ex_fs) = Inr (True, ex_logo_out)
   \<and> outcome_of (optimize_image_productos ex_env_bad ex_logo ex_logo_out ex_fs) = Inr (False, ex_logo_out)"
  by (simp add: outcome_of_def run_eval fs_eval path_eval ex_paths ex_fs_def ex_env_ok_def ex_env_bad_def
      ex_resized Let_def)

lemma ex_media_files:
  "regular_files (fsys ex_world) (SOURCE_DIR ex_env_ok) = [ex_foto, ex_clip, ex_notas, ex_logo]"
  by (simp add: regular_files_def rglob_def is_file_def node_at_def SOURCE_DIR_def ex_world_def
      ex_fs_def ex_env_ok_def ex_paths)

lemma ex_productos_files:
  "regular_files (fsys ex_world) (SOURCE_DIR_productos ex_env_ok) =
     [[''srv'', ''Productos'', ''silla.png''], [''srv'', ''Productos'', ''notas.txt''],
      [''srv'', ''Productos'', ''demo.mp4'']]"
  by (simp add: regular_files_def rglob_def is_file_def node_at_def SOURCE_DIR_productos_def
      ex_world_def ex_fs_def ex_env_ok_def)

lemma ex_productos_images:
  "filter (\<lambda>f. suffix f \<in> set IMAGE_EXTENSIONS)
     (regular_files (fsys ex_world) (SOURCE_DIR_productos ex_env_ok)) =
     [[''srv'', ''Productos'', ''silla.png'']]"
  by (simp add: ex_productos_files path_eval IMAGE_EXTENSIONS_def)

lemma ex_media_run:
  "fst (main ex_env_ok ex_world) =
     Inr (Some \<lparr>images = \<lparr>processed = 2, original_size = 3 / 524288,
                           optimized_size = 1 / 524288, errors = 0\<rparr>,
                 videos = \<lparr>processed = 1, original_size = 1 / 524288,
                           optimized_size = 1 / 1048576, errors = 0\<rparr>\<rparr>)"
  by (simp add: run_eval fs_eval path_eval ex_world_def ex_fs_def ex_env_ok_def ex_resized Let_def)

lemma ex_productos_run:
  "fst (main_productos ex_env_ok ex_world) =
     Inr (Some \<lparr>processed = 1, original_size = 3 / 1048576, optimized_size = 1 / 1048576,
                 errors = 0\<rparr>)"
  by (simp add: run_eval fs_eval path_eval ex_world_def ex_fs_def ex_env_ok_def ex_resized Let_def)

lemma ex_distinct: "distinct (map fst (fsys ex_world))"
  by (simp add: ex_world_def ex_fs_def)

theorem each_file_handled_once_witness:
  "fst (main ex_env_ok ex_world) =
     Inr (Some \<lparr>images = \<lparr>processed = 2, original_size = 3 / 524288,
                           optimized_size = 1 / 524288, errors = 0\<rparr>,
                 videos = \<lparr>processed = 1, original_size = 1 / 524288,
                           optimized_size = 1 / 1048576, errors = 0\<rparr>\<rparr>)
   \<and> fst (main_productos ex_env_ok ex_world) =
     Inr (Some \<lparr>processed = 1, original_size = 3 / 1048576, optimized_size = 1 / 1048576,
                 errors = 0\<rparr>)
   \<and> distinct (map fst (fsys ex_world))
   \<and> (\<exists>evs. trace (snd (main ex_env_ok ex_world)) = evs \<and> length evs = 4
        \<and> list_all2 (event_fits (SOURCE_DIR ex_env_ok) (OUTPUT_DIR ex_env_ok))
             [ex_foto, ex_clip, ex_notas, ex_logo] evs)
   \<and> (\<exists>evs. trace (snd (main_productos ex_env_ok ex_world)) = evs \<and> length evs = 1
        \<and> list_all2 (event_fits (SOURCE_DIR_productos ex_env_ok) (OUTPUT_DIR_productos ex_env_ok))
             [[''srv'', ''Productos'', ''silla.png'']] evs)
   \<and> distinct [ex_foto, ex_clip, ex_notas, ex_logo]"
proof -
  have t0: "trace ex_world = []" by (simp add: ex_world_def)
  have m: "\<exists>st. fst (main ex_env_ok ex_world) = Inr (Some st)" using ex_media_run by blast
  have p: "\<exists>st. fst (main_productos ex_env_ok ex_world) = Inr (Some st)"
    using ex_productos_run by blast
  from each_file_handled_once[of ex_env_ok ex_world]
  obtain evs evs' where
    a: "trace (snd (main ex_env_ok ex_world)) = trace ex_world @ evs"
       "list_all2 (event_fits (SOURCE_DIR ex_env_ok) (OUTPUT_DIR ex_env_ok))
             (take (length evs) (regular_files (fsys ex_world) (SOURCE_DIR ex_env_ok))) evs"
       "length evs = length (regular_files (fsys ex_world) (SOURCE_DIR ex_env_ok))"
    and b: "trace (snd (main_productos ex_env_ok ex_world)) = trace ex_world @ evs'"
       "list_all2 (event_fits (SOURCE_DIR_productos ex_env_ok) (OUTPUT_DIR_productos ex_env_ok))
             (take (length evs')
                (filter (\<lambda>f. suffix f \<in> set IMAGE_EXTENSIONS)
                        (regular_files (fsys ex_world) (SOURCE_DIR_productos ex_env_ok)))) evs'"
       "length evs' = length (filter (\<lambda>f. suffix f \<in> set IMAGE_EXTENSIONS)
                                     (regular_files (fsys ex_world) (SOURCE_DIR_productos ex_env_ok)))"
    and c: "distinct (regular_files (fsys ex_world) (SOURCE_DIR ex_env_ok))"
    using m p ex_distinct by blast
  have a': "trace (snd (main ex_env_ok ex_world)) = evs \<and> length evs = 4
        \<and> list_all2 (event_fits (SOURCE_DIR ex_env_ok) (OUTPUT_DIR ex_env_ok))
             [ex_foto, ex_clip, ex_notas, ex_logo] evs"
    using a t0 by (simp add: ex_media_files)
  have b': "trace (snd (main_productos ex_env_ok ex_world)) = evs' \<and> length evs' = 1
        \<and> list_all2 (event_fits (SOURCE_DIR_productos ex_env_ok) (OUTPUT_DIR_productos ex_env_ok))
             [[''srv'', ''Productos'', ''silla.png'']] evs'"
    using b t0 by (simp add: ex_productos_images)
  have c': "distinct [ex_foto, ex_clip, ex_notas, ex_logo]" using c by (simp add: ex_media_files)
  show ?thesis using ex_media_run ex_productos_run ex_distinct a' b' c' by blast
qed

text \<open>
  Claim C1 as stated fails for optimize_productos.py: of the three regular files under
  \<open>Productos\<close>, the run that reaches its end has handled the image only.
\<close>

theorem productos_skips_other_files:
  "regular_files (fsys ex_world) (SOURCE_DIR_productos ex_env_ok) =
     [[''srv'', ''Productos'', ''silla.png''], [''srv'', ''Productos'', ''notas.txt''],
      [''srv'', ''Productos'', ''demo.mp4'']]
   \<and> fst (main_productos ex_env_ok ex_world) =
     Inr (Some \<lparr>processed = 1, original_size = 3 / 1048576, optimized_size = 1 / 1048576,
                 errors = 0\<rparr>)
   \<and> map event_source (trace (snd (main_productos ex_env_ok ex_world))) =
     [[''srv'', ''Productos'', ''silla.png'']]"
  by (simp add: ex_productos_files run_eval fs_eval path_eval ex_world_def ex_fs_def ex_env_ok_def
      ex_resized Let_def)

text \<open>
  Claim C6 as stated fails for optimize_productos.py: the text file under \<open>Productos\<close> has
  no copy under \<open>ProductosOptimized\<close> after the run, and no line of the console mentions it.
\<close>

theorem productos_copies_nothing:
  "suffix [''srv'', ''Productos'', ''notas.txt''] \<notin> set IMAGE_EXTENSIONS
   \<and> suffix [''srv'', ''Productos'', ''notas.txt''] \<notin> set VIDEO_EXTENSIONS
   \<and> node_at (fsys ex_world) [''srv'', ''Productos'', ''notas.txt''] = Some (File [6] 21)
   \<and> node_at (fsys (snd (main_productos ex_env_ok ex_world)))
        (OUTPUT_DIR_productos ex_env_ok @ [''notas.txt'']) = None
   \<and> console (snd (main_productos ex_env_ok ex_world)) =
       banner_productos ex_env_ok
       @ [Found 1, Progress 1 1 [''silla.png''], Optimized (3 / 1048576) (1 / 1048576) (200 / 3),
          Rule, SummaryTitle, Rule, CategoryTitle ''IMAGENES'', ProcessedLine 1,
          OriginalLine (3 / 1048576), OptimizedLine (1 / 1048576), ReductionLine (200 / 3),
          SavedIn [''srv'', ''ProductosOptimized''], Rule]"
  by (simp add: run_eval fs_eval path_eval ex_world_def ex_fs_def ex_env_ok_def ex_resized Let_def)

theorem unknown_extension_is_copied_witness:
  "suffix ex_notas \<notin> set IMAGE_EXTENSIONS \<and> suffix ex_notas \<notin> set VIDEO_EXTENSIONS
   \<and> relative_to ex_notas (SOURCE_DIR ex_env_ok) = Inr [''notas.txt'']
   \<and> node_at (fsys ex_world) ex_notas = Some (File [6] 12)
   \<and> node_at (fsys ex_world) (OUTPUT_DIR ex_env_ok @ [''notas.txt'']) \<noteq> Some Dir
   \<and> mkdir_parents (read_only ex_env_ok) (fsys ex_world) (parent (OUTPUT_DIR ex_env_ok @ [''notas.txt''])) = Inr ex_fs1
   \<and> \<not> read_only ex_env_ok (OUTPUT_DIR ex_env_ok @ [''notas.txt''])
   \<and> ex_notas \<notin> set (files_to_process_productos ex_env_ok ex_fs)
   \<and> (\<exists>w'. process_file ex_env_ok 3 4 ex_notas \<lparr>images = no_stats, videos = no_stats\<rparr> ex_world
               = (Inr \<lparr>images = no_stats, videos = no_stats\<rparr>, w')
          \<and> fsys w' = put_node ex_fs1 ex_notas_out (File [6] 12)
          \<and> node_at (fsys w') (parent ex_notas_out) = Some Dir
          \<and> node_at (fsys w') ex_notas_out = Some (File [6] 12)
          \<and> node_at (fsys w') ex_notas = Some (File [6] 12)
          \<and> trace w' = [Copied ex_notas ex_notas_out]
          \<and> console w' = [Progress 3 4 [''notas.txt''], CopiedUnchanged])"
proof -
  have a: "suffix ex_notas \<notin> set IMAGE_EXTENSIONS"
    by (simp add: path_eval ex_paths IMAGE_EXTENSIONS_def)
  have b: "suffix ex_notas \<notin> set VIDEO_EXTENSIONS"
    by (simp add: path_eval ex_paths VIDEO_EXTENSIONS_def)
  have c: "relative_to ex_notas (SOURCE_DIR ex_env_ok) = Inr [''notas.txt'']"
    by (simp add: relative_to_def SOURCE_DIR_def ex_env_ok_def ex_paths)
  have d: "node_at (fsys ex_world) ex_notas = Some (File [6] 12)"
    by (simp add: ex_world_def ex_fs_def ex_paths node_at_def)
  have out: "OUTPUT_DIR ex_env_ok @ [''notas.txt''] = ex_notas_out"
    by (simp add: OUTPUT_DIR_def ex_env_ok_def ex_paths)
  have e: "node_at (fsys ex_world) (OUTPUT_DIR ex_env_ok @ [''notas.txt'']) \<noteq> Some Dir"
    by (simp add: out ex_world_def ex_fs_def ex_paths node_at_def)
  have f: "mkdir_parents (read_only ex_env_ok) (fsys ex_world) (parent (OUTPUT_DIR ex_env_ok @ [''notas.txt''])) = Inr ex_fs1"
    using ex_mk ex_ok_writable by (simp add: out ex_paths parent_def ex_world_def)
  have g: "\<not> read_only ex_env_ok (OUTPUT_DIR ex_env_ok @ [''notas.txt''])"
    by (simp add: ex_env_ok_def)
  have w0: "trace ex_world = []" "console ex_world = []" by (simp_all add: ex_world_def)
  show ?thesis
    using a b c d e f g w0
      unknown_extension_is_copied[OF a, of ex_env_ok ex_fs "[''notas.txt'']" ex_world "[6]" 12 ex_fs1 3 4
        "\<lparr>images = no_stats, videos = no_stats\<rparr>"]
    by (simp add: out)
qed

theorem missing_source_aborts_witness:
  "\<not> path_exists (fsys ex_bare_world) (SOURCE_DIR ex_env_ok)
   \<and> \<not> path_exists (fsys ex_bare_world) (SOURCE_DIR_productos ex_env_ok)
   \<and> main ex_env_ok ex_bare_world =
       (Inr None, ex_bare_world\<lparr>console := banner ex_env_ok @ [MissingSource (SOURCE_DIR ex_env_ok)]\<rparr>)
   \<and> main_productos ex_env_ok ex_bare_world =
       (Inr None, ex_bare_world\<lparr>console := banner_productos ex_env_ok
                                    @ [MissingSource (SOURCE_DIR_productos ex_env_ok)]\<rparr>)
   \<and> path_exists (fsys ex_world) (SOURCE_DIR ex_env_ok)
   \<and> path_exists (fsys ex_world) (SOURCE_DIR_productos ex_env_ok)
   \<and> fst (main ex_env_ok ex_world) \<noteq> Inr None
   \<and> fst (main_productos ex_env_ok ex_world) \<noteq> Inr None
   \<and> (\<exists>pre ls. summary ex_env_ok
                   \<lparr>images = \<lparr>processed = 2, original_size = 3 / 524288,
                               optimized_size = 1 / 524288, errors = 0\<rparr>,
                     videos = \<lparr>processed = 1, original_size = 1 / 524288,
                               optimized_size = 1 / 1048576, errors = 0\<rparr>\<rparr> = Inr ls
          \<and> console (snd (main ex_env_ok ex_world)) = pre @ ls)
   \<and> (\<exists>pre ls. summary_productos ex_env_ok
                   \<lparr>processed = 1, original_size = 3 / 1048576, optimized_size = 1 / 1048576,
                     errors = 0\<rparr> = Inr ls
          \<and> console (snd (main_productos ex_env_ok ex_world)) = pre @ ls)"
proof -
  have a: "\<not> path_exists (fsys ex_bare_world) (SOURCE_DIR ex_env_ok)"
    by (simp add: path_exists_def node_at_def SOURCE_DIR_def ex_env_ok_def ex_bare_world_def)
  have b: "\<not> path_exists (fsys ex_bare_world) (SOURCE_DIR_productos ex_env_ok)"
    by (simp add: path_exists_def node_at_def SOURCE_DIR_productos_def ex_env_ok_def ex_bare_world_def)
  have c: "path_exists (fsys ex_world) (SOURCE_DIR ex_env_ok)"
    by (simp add: path_exists_def node_at_def SOURCE_DIR_def ex_env_ok_def ex_world_def ex_fs_def)
  have d: "path_exists (fsys ex_world) (SOURCE_DIR_productos ex_env_ok)"
    by (simp add: path_exists_def node_at_def SOURCE_DIR_productos_def ex_env_ok_def ex_world_def ex_fs_def)
  have e: "console ex_bare_world = []" by (simp add: ex_bare_world_def)
  show ?thesis
    using a b c d missing_source_aborts[of ex_bare_world ex_env_ok]
      missing_source_aborts[of ex_world ex_env_ok] ex_media_run ex_productos_run
    by (simp add: e)
qed


lemma ex_thin_fails:
  "resize_if_larger (\<lambda>x. x) (flatten_mode \<lparr>mode = ''RGB'', width = 3840, height = 1, pix = Decoded b\<rparr>) =
   Inl (ValueError ''height and width must be > 0'')"
  "resize_if_larger (\<lambda>x. x) (flatten_mode \<lparr>mode = ''RGB'', width = 3840, height = Suc 0, pix = Decoded b\<rparr>) =
   Inl (ValueError ''height and width must be > 0'')"
  by (simp_all add: resize_if_larger_def flatten_mode_def new_size_thin pil_resize_def IMAGE_MAX_WIDTH_def)

text \<open>
  Claim C5 does not hold of the code for an image more than 1920 times as wide as it is
  high (or more than 1080 times as high as wide). The source file decodes to an image of
  3840 x 1 pixels, beyond the maximum width: the size computed for it is \<open>(1920, 0)\<close>,
  \<open>Image.resize\<close> refuses it, the handler of \<open>optimize_image\<close> (in either script) catches
  the error and copies the source. The call returns \<open>success = False\<close>, and the file at
  the destination is the source itself, still 3840 pixels wide: no output within
  1920 x 1080 is produced.
\<close>

theorem thin_image_is_copied_unresized:
  "open_image ex_env_thin ex_fs ex_foto = Inr ex_thin
   \<and> IMAGE_MAX_WIDTH < width ex_thin
   \<and> new_size (fl ex_env_thin) (width ex_thin) (height ex_thin) = Inr (1920, 0)
   \<and> resize_if_larger (fl ex_env_thin) (flatten_mode ex_thin)
       = Inl (ValueError ''height and width must be > 0'')
   \<and> optimize_image ex_env_thin ex_foto ex_foto_out ex_fs =
       (Inr \<lparr>source = ex_foto, outpath = ex_foto_out,
             original_size_mb = 3 / 1048576, success = False,
             error = Some ''height and width must be > 0'',
             optimized_size_mb = Some (3 / 1048576), reduction_percent = Some 0,
             resized = None\<rparr>,
        ex_fs1 @ [(ex_foto_out, File [1, 2, 3] 10)])
   \<and> optimize_image_productos ex_env_thin ex_foto ex_foto_out ex_fs =
       (Inr \<lparr>source = ex_foto, outpath = ex_foto_out,
             original_size_mb = 3 / 1048576, success = False,
             error = Some ''height and width must be > 0'',
             optimized_size_mb = Some (3 / 1048576), reduction_percent = Some 0,
             resized = None\<rparr>,
        ex_fs1 @ [(ex_foto_out, File [1, 2, 3] 10)])
   \<and> open_image ex_env_thin (ex_fs1 @ [(ex_foto_out, File [1, 2, 3] 10)]) ex_foto_out = Inr ex_thin"
proof -
  have a: "open_image ex_env_thin ex_fs ex_foto = Inr ex_thin"
    by (simp add: fs_eval ex_paths ex_fs_def ex_env_thin_def ex_env_ok_def ex_thin_def)
  have b: "IMAGE_MAX_WIDTH < width ex_thin" by (simp add: IMAGE_MAX_WIDTH_def ex_thin_def)
  have c: "new_size (fl ex_env_thin) (width ex_thin) (height ex_thin) = Inr (1920, 0)"
    using new_size_thin by (simp add: ex_env_thin_def ex_env_ok_def ex_thin_def)
  have d: "resize_if_larger (fl ex_env_thin) (flatten_mode ex_thin)
       = Inl (ValueError ''height and width must be > 0'')"
    using ex_thin_fails by (simp add: ex_env_thin_def ex_env_ok_def ex_thin_def)
  have e: "optimize_image_of b ex_env_thin ex_foto ex_foto_out ex_fs =
       (Inr \<lparr>source = ex_foto, outpath = ex_foto_out,
             original_size_mb = 3 / 1048576, success = False,
             error = Some ''height and width must be > 0'',
             optimized_size_mb = Some (3 / 1048576), reduction_percent = Some 0,
             resized = None\<rparr>,
        ex_fs1 @ [(ex_foto_out, File [1, 2, 3] 10)])" for b
    by (simp add: optimize_image_of_def image_try_def with_image_block_def fallback_copy_def
        str_exn_def ex_text_def fs_eval ex_paths ex_fs_def ex_fs1_def ex_env_thin_def ex_env_ok_def
        ex_thin_fails Let_def)
  have f: "open_image ex_env_thin (ex_fs1 @ [(ex_foto_out, File [1, 2, 3] 10)]) ex_foto_out = Inr ex_thin"
    by (simp add: fs_eval ex_paths ex_fs_def ex_fs1_def ex_env_thin_def ex_env_ok_def ex_thin_def)
  show ?thesis
    using a b c d e f by (simp add: optimize_image_def optimize_image_productos_def)
qed


end
